theory Spec2Isabelle
  imports Main "HOL-Library.Sublist"
begin

section \<open>Strings\<close>

text \<open>
  A Go string is a sequence of bytes; \<^typ>\<open>string\<close> is a list of 8-bit characters, so
  a Go string is modelled byte for byte. The middle dot U+00B7 of the source is the two
  bytes C2 B7 of its UTF-8 encoding.
\<close>

definition middot :: string where
  "middot = [CHR 0xC2, CHR 0xB7]"

definition newline :: string where
  "newline = [CHR 0x0A]"

text \<open>
  \<open>strings.ReplaceAll(s, old, new)\<close>: the non-overlapping occurrences of \<open>old\<close> in
  \<open>s\<close>, found from the left, are replaced by \<open>new\<close>. Every call of the program passes a
  non-empty literal for \<open>old\<close>; for an empty \<open>old\<close> (where Go inserts \<open>new\<close> around
  every rune) the model leaves \<open>s\<close> as it is.
\<close>

function replaceAll :: "string \<Rightarrow> string \<Rightarrow> string \<Rightarrow> string" where
  "replaceAll [] old new = []"
| "replaceAll (c # s) old new =
     (if old \<noteq> [] \<and> take (length old) (c # s) = old
      then new @ replaceAll (drop (length old) (c # s)) old new
      else c # replaceAll s old new)"
  by pat_completeness auto
termination
  by (relation "measure (\<lambda>(s, old, new). length s)") auto

text \<open>\<open>strings.TrimSuffix(s, suffix)\<close>.\<close>

definition trimSuffix :: "string \<Rightarrow> string \<Rightarrow> string" where
  "trimSuffix s suf =
     (if suffix suf s then take (length s - length suf) s else s)"

section \<open>The response cache (cache/cache.go)\<close>

text \<open>
  An instant (\<open>time.Time\<close>) and a duration (\<open>time.Duration\<close>) are integers counting
  nanoseconds; \<open>t.Add(d)\<close> is \<open>t + d\<close> and \<open>t.Before(u)\<close> is \<open>t < u\<close>. The reading of
  the clock, \<open>time.Now()\<close>, is an argument of the operation that takes it. A value of
  type \<open>interface{}\<close> is an \<^typ>\<open>'v option\<close>, \<^term>\<open>None\<close> being \<open>nil\<close>. The lock of
  the cache orders concurrent calls; the model is of one call at a time.
\<close>

type_synonym instant = int
type_synonym duration = int

definition second :: duration where
  "second = 1000000000"

record 'v CacheItem =
  Data :: "'v option"
  ExpiresAt :: instant

record 'v Cache =
  items :: "string \<rightharpoonup> 'v CacheItem"

definition NewCache :: "'v Cache" where
  "NewCache = \<lparr>items = Map.empty\<rparr>"

definition Set :: "'v Cache \<Rightarrow> string \<Rightarrow> 'v option \<Rightarrow> duration \<Rightarrow> instant \<Rightarrow> 'v Cache" where
  "Set c key data ttl now =
     c\<lparr>items := (items c)(key \<mapsto> \<lparr>Data = data, ExpiresAt = now + ttl\<rparr>)\<rparr>"

definition Get :: "'v Cache \<Rightarrow> string \<Rightarrow> instant \<Rightarrow> 'v option \<times> bool" where
  "Get c key now =
     (case items c key of
        None \<Rightarrow> (None, False)
      | Some item \<Rightarrow>
          if ExpiresAt item < now then (None, False) else (Data item, True))"

definition CleanUp :: "'v Cache \<Rightarrow> instant \<Rightarrow> 'v Cache" where
  "CleanUp c now =
     c\<lparr>items := (\<lambda>key. case items c key of
                        None \<Rightarrow> None
                      | Some item \<Rightarrow> if ExpiresAt item < now then None else Some item)\<rparr>"

section \<open>Rich text\<close>

record Mention =
  mention_Type :: string
  mention_PageID :: string

record Annotations =
  Bold :: bool
  Italic :: bool
  Strikethrough :: bool
  Underline :: bool
  Code :: bool
  Color :: string

record RichText =
  rt_Type :: string
  rt_Annotations :: Annotations
  rt_PlainText :: string
  rt_Mention :: "Mention option"
  rt_Href :: "string option"

text \<open>
  The styling shared by \<open>formatBlockHTML\<close> and \<open>renderTableCell\<close>: the two
  replacements, then the five conditional wraps, each assignment of the source a
  \<open>let\<close>.
\<close>

definition formatBlockHTML :: "RichText \<Rightarrow> string" where
  "formatBlockHTML rt =
     (let a = rt_Annotations rt;
          t = replaceAll (rt_PlainText rt) middot ''-'';
          t = replaceAll t newline ''<br />'';
          t = (if Bold a then ''<strong>'' @ t @ ''</strong>'' else t);
          t = (if Italic a then ''<em>'' @ t @ ''</em>'' else t);
          t = (if Underline a then ''<u>'' @ t @ ''</u>'' else t);
          t = (if Strikethrough a then ''<del>'' @ t @ ''</del>'' else t);
          t = (if Code a then ''<code>'' @ t @ ''</code>'' else t)
      in t)"

section \<open>Pages and their property maps\<close>

text \<open>
  The property map of a page is decoded into \<open>map[string]interface{}\<close>: a value is
  \<open>nil\<close>, a boolean, a number, a string, a slice or another such map. A map is an
  association list read with \<^const>\<open>map_of\<close>; indexing a map with an absent key
  gives \<open>nil\<close>. The extractors never look at a number, which is an integer here.
\<close>

datatype json =
    JNull
  | JBool bool
  | JNumber int
  | JString string
  | JArray "json list"
  | JObject "(string \<times> json) list"

record NotionPage =
  page_ID :: string
  Properties :: "(string \<times> json) list"

text \<open>What stops a Go program at run time.\<close>

datatype panic = TypeAssertion | IndexOutOfRange | NilDereference

definition bindP :: "panic + 'a \<Rightarrow> ('a \<Rightarrow> panic + 'b) \<Rightarrow> panic + 'b" where
  "bindP m f = (case m of Inl p \<Rightarrow> Inl p | Inr x \<Rightarrow> f x)"

definition index_map :: "(string \<times> json) list \<Rightarrow> string \<Rightarrow> json" where
  "index_map m key = (case map_of m key of None \<Rightarrow> JNull | Some v \<Rightarrow> v)"

text \<open>
  The type assertions \<open>v.([]interface{})\<close>, \<open>v.(map[string]interface{})\<close> and
  \<open>v.(string)\<close> in their one-result form, which panics on another type, and the
  index expression \<open>a[0]\<close>.
\<close>

definition assertArray :: "json \<Rightarrow> panic + json list" where
  "assertArray v = (case v of JArray a \<Rightarrow> Inr a | _ \<Rightarrow> Inl TypeAssertion)"

definition assertMap :: "json \<Rightarrow> panic + (string \<times> json) list" where
  "assertMap v = (case v of JObject m \<Rightarrow> Inr m | _ \<Rightarrow> Inl TypeAssertion)"

definition assertString :: "json \<Rightarrow> panic + string" where
  "assertString v = (case v of JString s \<Rightarrow> Inr s | _ \<Rightarrow> Inl TypeAssertion)"

definition index0 :: "json list \<Rightarrow> panic + json" where
  "index0 a = (case a of [] \<Rightarrow> Inl IndexOutOfRange | v # _ \<Rightarrow> Inr v)"

text \<open>\<open>a[0].(map[string]interface{})[key].(string)\<close>\<close>

definition firstString :: "json list \<Rightarrow> string \<Rightarrow> panic + string" where
  "firstString a key =
     bindP (index0 a) (\<lambda>v. bindP (assertMap v) (\<lambda>m. assertString (index_map m key)))"

text \<open>
  \<open>extractPageProperties\<close>. The two-result assertion
  \<open>page.Properties[k].(map[string]interface{})\<close> is the \<open>case\<close> on \<^const>\<open>JObject\<close>;
  inside it every assertion is of the panicking form.
\<close>

definition extractPageProperties :: "NotionPage \<Rightarrow> panic + (string \<times> string \<times> string)" where
  "extractPageProperties page =
     bindP (case index_map (Properties page) ''Name'' of
              JObject titleProp \<Rightarrow>
                bindP (assertArray (index_map titleProp ''title''))
                  (\<lambda>a. firstString a ''plain_text'')
            | _ \<Rightarrow> Inr [])
       (\<lambda>title.
     bindP (case index_map (Properties page) ''Slug'' of
              JObject slugProp \<Rightarrow>
                bindP (assertArray (index_map slugProp ''rich_text''))
                  (\<lambda>a. bindP (if length a > 0 then firstString a ''plain_text'' else Inr title)
                  (\<lambda>slug. Inr (replaceAll slug '' '' ''-'')))
            | _ \<Rightarrow> Inr [])
       (\<lambda>slug.
     bindP (case index_map (Properties page) ''Keywords'' of
              JObject keywordsProp \<Rightarrow>
                bindP (assertArray (index_map keywordsProp ''rich_text''))
                  (\<lambda>a. if length a > 0 then firstString a ''plain_text'' else Inr [])
            | _ \<Rightarrow> Inr [])
       (\<lambda>keywords. Inr (title, slug, keywords))))"

text \<open>The loop of \<open>extractPageRelations\<close> over the relation list.\<close>

fun relationIDs :: "json list \<Rightarrow> string list \<Rightarrow> panic + string list" where
  "relationIDs [] childPages = Inr childPages"
| "relationIDs (item # rest) childPages =
     bindP (assertMap item) (\<lambda>m. bindP (assertString (index_map m ''id''))
       (\<lambda>i. relationIDs rest (childPages @ [i])))"

definition extractPageRelations :: "NotionPage \<Rightarrow> panic + (string \<times> string list)" where
  "extractPageRelations page =
     bindP (case index_map (Properties page) ''Parent'' of
              JObject parent \<Rightarrow>
                bindP (assertArray (index_map parent ''relation''))
                  (\<lambda>a. if length a > 0 then firstString a ''id'' else Inr [])
            | _ \<Rightarrow> Inr [])
       (\<lambda>parentId.
     bindP (case index_map (Properties page) ''Sub-Items'' of
              JObject subItems \<Rightarrow>
                bindP (assertArray (index_map subItems ''relation''))
                  (\<lambda>a. if length a > 0 then relationIDs a [] else Inr [])
            | _ \<Rightarrow> Inr [])
       (\<lambda>childPages. Inr (parentId, childPages)))"

section \<open>Blocks\<close>

text \<open>
  The structs of the remote schema, with the fields the program reads. A pointer field
  is an option, \<^term>\<open>None\<close> being the nil pointer: \<open>encoding/json\<close> leaves a pointer
  field nil when the object has no such key.
\<close>

record Heading =
  heading_RichText :: "RichText list"

record Paragraph =
  paragraph_RichText :: "RichText list"

record NumberedListItem =
  numbered_RichText :: "RichText list"

record ToDoItem =
  todo_RichText :: "RichText list"
  todo_Checked :: bool

record CodeBlock =
  code_RichText :: "RichText list"
  code_Language :: string

record Quote =
  quote_RichText :: "RichText list"

record Icon =
  icon_Type :: string
  icon_Emoji :: string

record Callout =
  callout_RichText :: "RichText list"
  callout_Icon :: Icon

record File =
  file_URL :: string

record Link =
  link_URL :: string

record Image =
  image_Type :: string
  image_File :: "File option"
  image_External :: "Link option"

record LinkToPage =
  ltp_Type :: string
  ltp_PageID :: string

record Bookmark =
  bookmark_URL :: string
  bookmark_Caption :: "RichText list"

record ChildPage =
  childpage_Title :: string

record TableCell =
  cell_Type :: string
  cell_Annotations :: Annotations
  cell_PlainText :: string
  cell_Href :: string
  cell_Mention :: "Mention option"

record TableRow =
  Cells :: "TableCell list list"

record Table =
  TableWidth :: int
  HasColumnHeader :: bool
  HasRowHeader :: bool

record NotionBlock =
  block_ID :: string
  HasChildren :: bool
  block_Type :: string
  Heading1 :: "Heading option"
  Heading2 :: "Heading option"
  Heading3 :: "Heading option"
  BulltedListItem :: "Paragraph option"
  block_Paragraph :: "Paragraph option"
  block_Table :: "Table option"
  block_NumberedListItem :: "NumberedListItem option"
  block_ToDoItem :: "ToDoItem option"
  block_Code :: "CodeBlock option"
  block_Quote :: "Quote option"
  block_Callout :: "Callout option"
  block_Image :: "Image option"
  block_File :: "File option"
  block_Bookmark :: "Bookmark option"
  TableRows :: "TableRow option"
  block_LinkToPage :: "LinkToPage option"
  block_ChildPage :: "ChildPage option"

record NotionBlockChildrenResponse =
  children_Results :: "NotionBlock list"
  children_NextCursor :: string
  children_HasMore :: bool

record NotionQueryResponse =
  query_Results :: "NotionPage list"
  query_NextCursor :: string
  query_HasMore :: bool

section \<open>The world outside the program\<close>

text \<open>
  What the program does to the outside is written into a \<open>World\<close> that every
  operation takes and returns: the requests sent, the sleeps, the operations on the file
  system, and the slug registry \<open>conf.slugRegistered\<close>. What the outside answers is
  read from an \<open>Env\<close>: the configuration that \<open>main\<close> stores in \<open>conf\<close>, and one
  function for each call whose result the program does not decide, given what has
  happened before.

  The body of a response is known by what \<open>json.Unmarshal\<close> makes of it for each of
  the three response types, \<^term>\<open>None\<close> where it returns an error. An exchange
  ends in one of three ways: \<open>client.Do\<close> fails; a response with a status arrives and
  \<open>io.ReadAll\<close> fails on its body; or a response with a status arrives and its body
  is read.
\<close>

datatype goerror =
    NewRequestError
  | DoError
  | ReadAllError
  | UnmarshalError
  | WriteFileError
  | TableContentError goerror

record Body =
  asChildren :: "NotionBlockChildrenResponse option"
  asQuery :: "NotionQueryResponse option"
  asPage :: "NotionPage option"

datatype HttpOutcome = DoFailed | ReadAllFailed nat | Response nat Body

record Request =
  req_Method :: string
  req_URL :: string
  req_RawQuery :: "string option"
  req_Header :: "(string \<times> string) list"
  req_Body :: "string option"

datatype FsOp = MkdirAll string | WriteFile string string

record Env =
  DocsRoot :: string
  AssetsDir :: string
  APIToken :: string
  newRequestFails :: "string \<Rightarrow> string \<Rightarrow> bool"
  roundTrip :: "Request list \<Rightarrow> Request \<Rightarrow> HttpOutcome"
  statNotExist :: "FsOp list \<Rightarrow> string \<Rightarrow> bool"
  writeFileFails :: "FsOp list \<Rightarrow> string \<Rightarrow> bool"
  downloadImage :: "string \<Rightarrow> string \<Rightarrow> string option"

record World =
  clock :: instant
  requests :: "Request list"
  sleeps :: "duration list"
  fsOps :: "FsOp list"
  slugRegistered :: "string list"

text \<open>
  How a call ends: it returns, it panics, or \<open>log.Fatalf\<close> exits the process. A call
  that never ends has no outcome: the operations below give an optional outcome,
  \<^term>\<open>None\<close> when the call does not return.
\<close>

datatype 'a Outcome = Return 'a World | Panicked panic World | Fatal World

definition sleep :: "duration \<Rightarrow> World \<Rightarrow> World" where
  "sleep d w = w\<lparr>clock := clock w + d, sleeps := sleeps w @ [d]\<rparr>"

definition send :: "Request \<Rightarrow> World \<Rightarrow> World" where
  "send req w = w\<lparr>requests := requests w @ [req]\<rparr>"

definition authHeaders :: "string \<Rightarrow> (string \<times> string) list" where
  "authHeaders token =
     [(''Authorization'', ''Bearer '' @ token), (''Notion-Version'', ''2022-06-28'')]"

section \<open>The fetch operations\<close>

text \<open>
  What a cache of the fetch operations can hold. \<open>fetchPage\<close> stores a
  \<open>NotionPage\<close> and asserts a \<open>*NotionPage\<close>, which no stored value is.
\<close>

datatype Cached =
    CachedChildren NotionBlockChildrenResponse
  | CachedQuery NotionQueryResponse
  | CachedPage NotionPage
  | CachedBlocks "NotionBlock list"

text \<open>
  The URL and the request of each operation. With a cursor, \<open>fetchChildren\<close>
  assigns \<open>req.URL.RawQuery\<close>, which takes the place of the query string parsed
  from the URL, and \<open>fetchPagesFromDatabase\<close> sets a body.
\<close>

definition childrenURL :: "string \<Rightarrow> string" where
  "childrenURL blockID =
     ''https://api.notion.com/v1/blocks/'' @ blockID @ ''/children?page_size=100''"

definition childrenRequest :: "string \<Rightarrow> string \<Rightarrow> string \<Rightarrow> Request" where
  "childrenRequest token blockID cursor =
     (let req = \<lparr>req_Method = ''GET'', req_URL = childrenURL blockID, req_RawQuery = None,
                 req_Header = authHeaders token, req_Body = None\<rparr>
      in if cursor \<noteq> [] then req\<lparr>req_RawQuery := Some (''start_cursor='' @ cursor)\<rparr>
         else req)"

definition queryURL :: "string \<Rightarrow> string" where
  "queryURL databaseID = ''https://api.notion.com/v1/databases/'' @ databaseID @ ''/query''"

definition queryRequest :: "string \<Rightarrow> string \<Rightarrow> string \<Rightarrow> Request" where
  "queryRequest token databaseID cursor =
     (let req = \<lparr>req_Method = ''POST'', req_URL = queryURL databaseID, req_RawQuery = None,
                 req_Header = authHeaders token, req_Body = None\<rparr>
      in if cursor \<noteq> []
         then req\<lparr>req_Body := Some (''{'' @ [CHR 0x22] @ ''start_cursor'' @ [CHR 0x22] @ '':''
                                 @ [CHR 0x22] @ cursor @ [CHR 0x22] @ ''}'')\<rparr>
         else req)"

definition pageURL :: "string \<Rightarrow> string" where
  "pageURL pageID = ''https://api.notion.com/v1/pages/'' @ pageID"

definition pageRequest :: "string \<Rightarrow> string \<Rightarrow> Request" where
  "pageRequest token pageID =
     \<lparr>req_Method = ''GET'', req_URL = pageURL pageID, req_RawQuery = None,
      req_Header = authHeaders token, req_Body = None\<rparr>"

definition contentURL :: "string \<Rightarrow> string" where
  "contentURL pageID = ''https://api.notion.com/v1/blocks/'' @ pageID @ ''/children''"

definition contentRequest :: "string \<Rightarrow> string \<Rightarrow> Request" where
  "contentRequest token pageID =
     \<lparr>req_Method = ''GET'', req_URL = contentURL pageID, req_RawQuery = None,
      req_Header = authHeaders token, req_Body = None\<rparr>"

text \<open>
  Each operation makes its own cache (\<open>cache.NewCache()\<close>), reads it, and on a
  response with status 429 sleeps and calls itself with its own arguments. The cache
  is local to the call, so the \<open>cache.Set\<close> before the last \<open>return\<close> changes
  nothing another call can see; it is the \<open>let\<close> of the last branch.
\<close>

partial_function (option) fetchChildren ::
  "Env \<Rightarrow> string \<Rightarrow> string \<Rightarrow> string \<Rightarrow> World
    \<Rightarrow> (goerror + NotionBlockChildrenResponse) Outcome option" where
  "fetchChildren env token blockID cursor w =
     (let url = childrenURL blockID;
          cache = (NewCache :: Cached Cache);
          (cachedResponse, found) = Get cache url (clock w)
      in if found
         then (case cachedResponse of
                 Some (CachedChildren r) \<Rightarrow> Some (Return (Inr r) w)
               | _ \<Rightarrow> Some (Panicked TypeAssertion w))
         else if newRequestFails env ''GET'' url then Some (Return (Inl NewRequestError) w)
         else
           let req = childrenRequest token blockID cursor
           in case roundTrip env (requests w) req of
                DoFailed \<Rightarrow> Some (Return (Inl DoError) (send req w))
              | ReadAllFailed status \<Rightarrow> Some (Return (Inl ReadAllError) (send req w))
              | Response status body \<Rightarrow>
                  if status = 429
                  then fetchChildren env token blockID cursor (sleep (3 * second) (send req w))
                  else (case asChildren body of
                          None \<Rightarrow> Some (Return (Inl UnmarshalError) (send req w))
                        | Some data \<Rightarrow>
                            let cache = Set cache url (Some (CachedChildren data))
                                          (600 * second) (clock w)
                            in Some (Return (Inr data) (send req w))))"

partial_function (option) fetchPagesFromDatabase ::
  "Env \<Rightarrow> string \<Rightarrow> string \<Rightarrow> string \<Rightarrow> World
    \<Rightarrow> (goerror + NotionQueryResponse) Outcome option" where
  "fetchPagesFromDatabase env token databaseID cursor w =
     (let url = queryURL databaseID;
          cache = (NewCache :: Cached Cache);
          (cachedResponse, found) = Get cache url (clock w)
      in if found
         then (case cachedResponse of
                 Some (CachedQuery r) \<Rightarrow> Some (Return (Inr r) w)
               | _ \<Rightarrow> Some (Panicked TypeAssertion w))
         else if newRequestFails env ''POST'' url then Some (Return (Inl NewRequestError) w)
         else
           let req = queryRequest token databaseID cursor
           in case roundTrip env (requests w) req of
                DoFailed \<Rightarrow> Some (Return (Inl DoError) (send req w))
              | ReadAllFailed status \<Rightarrow> Some (Return (Inl ReadAllError) (send req w))
              | Response status body \<Rightarrow>
                  if status = 429
                  then fetchPagesFromDatabase env token databaseID cursor
                         (sleep (3 * second) (send req w))
                  else (case asQuery body of
                          None \<Rightarrow> Some (Return (Inl UnmarshalError) (send req w))
                        | Some data \<Rightarrow>
                            let cache = Set cache url (Some (CachedQuery data))
                                          (600 * second) (clock w)
                            in Some (Return (Inr data) (send req w))))"

partial_function (option) fetchPage ::
  "Env \<Rightarrow> string \<Rightarrow> string \<Rightarrow> World \<Rightarrow> (goerror + NotionPage) Outcome option" where
  "fetchPage env token pageID w =
     (let url = pageURL pageID;
          cache = (NewCache :: Cached Cache);
          (cachedResponse, found) = Get cache url (clock w)
      in if found then Some (Panicked TypeAssertion w)
         else if newRequestFails env ''GET'' url then Some (Return (Inl NewRequestError) w)
         else
           let req = pageRequest token pageID
           in case roundTrip env (requests w) req of
                DoFailed \<Rightarrow> Some (Return (Inl DoError) (send req w))
              | ReadAllFailed status \<Rightarrow> Some (Return (Inl ReadAllError) (send req w))
              | Response status body \<Rightarrow>
                  if status = 429
                  then fetchPage env token pageID (sleep (3 * second) (send req w))
                  else (case asPage body of
                          None \<Rightarrow> Some (Return (Inl UnmarshalError) (send req w))
                        | Some response \<Rightarrow>
                            let cache = Set cache url (Some (CachedPage response))
                                          (600 * second) (clock w)
                            in Some (Return (Inr response) (send req w))))"

partial_function (option) fetchPageContent ::
  "Env \<Rightarrow> string \<Rightarrow> string \<Rightarrow> World \<Rightarrow> (goerror + NotionBlock list) Outcome option" where
  "fetchPageContent env token pageID w =
     (let url = contentURL pageID;
          cache = (NewCache :: Cached Cache);
          (cachedResponse, found) = Get cache url (clock w)
      in if found
         then (case cachedResponse of
                 Some (CachedBlocks r) \<Rightarrow> Some (Return (Inr r) w)
               | _ \<Rightarrow> Some (Panicked TypeAssertion w))
         else if newRequestFails env ''GET'' url then Some (Return (Inl NewRequestError) w)
         else
           let req = contentRequest token pageID
           in case roundTrip env (requests w) req of
                DoFailed \<Rightarrow> Some (Return (Inl DoError) (send req w))
              | ReadAllFailed status \<Rightarrow> Some (Return (Inl ReadAllError) (send req w))
              | Response status body \<Rightarrow>
                  if status = 429
                  then fetchPageContent env token pageID (sleep (3 * second) (send req w))
                  else (case asChildren body of
                          None \<Rightarrow> Some (Return (Inl UnmarshalError) (send req w))
                        | Some response \<Rightarrow>
                            let cache = Set cache url
                                          (Some (CachedBlocks (children_Results response)))
                                          (600 * second) (clock w)
                            in Some (Return (Inr (children_Results response)) (send req w))))"

section \<open>Running operations one after another\<close>

text \<open>
  \<open>andThen\<close> runs an operation on the world that the one before it has left, unless
  that one did not return; \<open>liftP\<close> turns a step that can only panic into an
  operation; \<open>deref\<close> reads through a pointer.
\<close>

definition ret :: "'a \<Rightarrow> World \<Rightarrow> 'a Outcome option" where
  "ret x w = Some (Return x w)"

definition andThen ::
  "'a Outcome option \<Rightarrow> ('a \<Rightarrow> World \<Rightarrow> 'b Outcome option) \<Rightarrow> 'b Outcome option" where
  "andThen m f =
     (case m of
        None \<Rightarrow> None
      | Some (Return x w) \<Rightarrow> f x w
      | Some (Panicked p w) \<Rightarrow> Some (Panicked p w)
      | Some (Fatal w) \<Rightarrow> Some (Fatal w))"

definition liftP :: "panic + 'a \<Rightarrow> World \<Rightarrow> 'a Outcome option" where
  "liftP r w = (case r of Inl p \<Rightarrow> Some (Panicked p w) | Inr x \<Rightarrow> Some (Return x w))"

definition deref :: "'a option \<Rightarrow> panic + 'a" where
  "deref p = (case p of None \<Rightarrow> Inl NilDereference | Some x \<Rightarrow> Inr x)"

definition mkdirAll :: "string \<Rightarrow> World \<Rightarrow> World" where
  "mkdirAll path w = w\<lparr>fsOps := fsOps w @ [MkdirAll path]\<rparr>"

text \<open>
  \<open>if _, err := os.Stat(dir); os.IsNotExist(err) { os.MkdirAll(dir, os.ModePerm) }\<close>; an
  error of \<open>os.MkdirAll\<close> is logged and nothing else.
\<close>

definition ensureDir :: "Env \<Rightarrow> string \<Rightarrow> World \<Rightarrow> World" where
  "ensureDir env dir w = (if statNotExist env (fsOps w) dir then mkdirAll dir w else w)"

section \<open>Tables\<close>

text \<open>
  The link that a mention, a \<open>link_to_page\<close> block and a mention in a table cell
  are rendered as: \<open>extractPageProperties\<close>, the documentation root in front of a slug
  that starts with a slash, and \<open>fmt.Sprintf("[%s](%s)", title, slug)\<close>.
\<close>

definition pageLink :: "Env \<Rightarrow> NotionPage \<Rightarrow> panic + string" where
  "pageLink env page =
     bindP (extractPageProperties page) (\<lambda>(title, slug, keywords).
       let slug = (if length slug > 0 \<and> take 1 slug = ''/'' then DocsRoot env @ slug else slug)
       in Inr (''['' @ title @ ''](''  @ slug @ '')''))"

text \<open>The loop of \<open>fetchTableContent\<close> over one page of results.\<close>

fun appendTableRows :: "NotionBlock list \<Rightarrow> TableRow list \<Rightarrow> panic + TableRow list" where
  "appendTableRows [] allRows = Inr allRows"
| "appendTableRows (result # rest) allRows =
     (if block_Type result = ''table_row''
      then bindP (deref (TableRows result)) (\<lambda>row. appendTableRows rest (allRows @ [row]))
      else appendTableRows rest allRows)"

text \<open>
  \<open>fetchTableContent\<close>: the loop \<open>for hasMore\<close>, with the rows gathered so far and
  the cursor as arguments. It ends when a page of results says that there are no more.
\<close>

partial_function (option) fetchTableContentFrom ::
  "Env \<Rightarrow> string \<Rightarrow> string \<Rightarrow> TableRow list \<Rightarrow> string \<Rightarrow> World
    \<Rightarrow> (goerror + TableRow list) Outcome option" where
  "fetchTableContentFrom env token tableBlockID allRows nextCursor w =
     (case fetchChildren env token tableBlockID nextCursor w of
        None \<Rightarrow> None
      | Some (Panicked p w) \<Rightarrow> Some (Panicked p w)
      | Some (Fatal w) \<Rightarrow> Some (Fatal w)
      | Some (Return r w) \<Rightarrow>
          (case r of
             Inl err \<Rightarrow> Some (Return (Inl (TableContentError err)) w)
           | Inr response \<Rightarrow>
               (case appendTableRows (children_Results response) allRows of
                  Inl p \<Rightarrow> Some (Panicked p w)
                | Inr allRows \<Rightarrow>
                    if children_HasMore response
                    then fetchTableContentFrom env token tableBlockID allRows
                           (children_NextCursor response) (sleep (1 * second) w)
                    else Some (Return (Inr allRows) (sleep (1 * second) w)))))"

definition fetchTableContent ::
  "Env \<Rightarrow> string \<Rightarrow> string \<Rightarrow> World \<Rightarrow> (goerror + TableRow list) Outcome option" where
  "fetchTableContent env token tableBlockID w =
     fetchTableContentFrom env token tableBlockID [] [] w"

text \<open>
  The styling that \<open>renderTableCell\<close> gives the text of one run of a cell: the
  statements of \<open>formatBlockHTML\<close>, written out again in its loop.
\<close>

definition cellRunHTML :: "TableCell \<Rightarrow> string" where
  "cellRunHTML rt =
     (let a = cell_Annotations rt;
          t = replaceAll (cell_PlainText rt) middot ''-'';
          t = replaceAll t newline ''<br />'';
          t = (if Bold a then ''<strong>'' @ t @ ''</strong>'' else t);
          t = (if Italic a then ''<em>'' @ t @ ''</em>'' else t);
          t = (if Underline a then ''<u>'' @ t @ ''</u>'' else t);
          t = (if Strikethrough a then ''<del>'' @ t @ ''</del>'' else t);
          t = (if Code a then ''<code>'' @ t @ ''</code>'' else t)
      in t)"

text \<open>
  The loop of \<open>renderTableCell\<close> over the runs of a cell. A mention whose page
  cannot be fetched is passed over (\<open>continue\<close>); one whose page is fetched has the
  link as its text, which is then styled as any other.
\<close>

fun renderTableCellRuns ::
  "Env \<Rightarrow> TableCell list \<Rightarrow> string \<Rightarrow> World \<Rightarrow> string Outcome option" where
  "renderTableCellRuns env [] cellContent w = ret cellContent w"
| "renderTableCellRuns env (rt # rest) cellContent w =
     (if cell_Type rt = ''mention''
      then andThen (liftP (deref (cell_Mention rt)) w) (\<lambda>mention w.
           andThen (fetchPage env (APIToken env) (mention_PageID mention) w) (\<lambda>r w.
             case r of
               Inl err \<Rightarrow> renderTableCellRuns env rest cellContent w
             | Inr page \<Rightarrow>
                 andThen (liftP (pageLink env page) w) (\<lambda>link w.
                   renderTableCellRuns env rest
                     (cellContent @ cellRunHTML (rt\<lparr>cell_PlainText := link\<rparr>)) w)))
      else renderTableCellRuns env rest (cellContent @ cellRunHTML rt) w)"

definition renderTableCell :: "Env \<Rightarrow> TableCell list \<Rightarrow> World \<Rightarrow> string Outcome option" where
  "renderTableCell env cell w =
     andThen (renderTableCellRuns env cell [] w) (\<lambda>cellContent w.
       let cellContent = trimSuffix cellContent newline;
           cellContent = replaceAll cellContent ''|'' ''&#124;''
       in ret cellContent w)"

text \<open>
  \<open>renderTable\<close>: the inner loop over the cells of the row with index \<open>i\<close>, the
  outer loop over the rows from index \<open>i\<close> on, and the function.
\<close>

fun renderTableCells ::
  "Env \<Rightarrow> nat \<Rightarrow> TableCell list list \<Rightarrow> World \<Rightarrow> string Outcome option" where
  "renderTableCells env i [] w = ret [] w"
| "renderTableCells env i (cell # cells) w =
     andThen (renderTableCell env cell w) (\<lambda>c w.
     andThen (renderTableCells env i cells w) (\<lambda>rest w.
       ret ((if i = 0 then ''<th>'' @ c @ ''</th>'' else ''<td>'' @ c @ ''</td>'') @ rest) w))"

fun renderTableRows ::
  "Env \<Rightarrow> nat \<Rightarrow> TableRow list \<Rightarrow> World \<Rightarrow> string Outcome option" where
  "renderTableRows env i [] w = ret [] w"
| "renderTableRows env i (row # rows) w =
     andThen (renderTableCells env i (Cells row) w) (\<lambda>cells w.
     andThen (renderTableRows env (Suc i) rows w) (\<lambda>rest w.
       ret (''<tr>'' @ cells @ ''</tr>'' @ rest) w))"

definition renderTable ::
  "Env \<Rightarrow> Table option \<Rightarrow> TableRow list \<Rightarrow> World \<Rightarrow> string Outcome option" where
  "renderTable env table rows w =
     (if table = None \<or> length rows = 0 then ret [] w
      else andThen (renderTableRows env 0 rows w) (\<lambda>body w.
             ret (''<table>'' @ body @ ''</table>'') w))"

section \<open>The block renderer\<close>

definition tab :: string where
  "tab = [CHR 0x09]"

definition fence :: string where
  "fence = replicate 3 (CHR 0x60)"

text \<open>The loops that join the plain or the styled text of the runs of a block.\<close>

definition plainTextOf :: "RichText list \<Rightarrow> string" where
  "plainTextOf runs = foldl (\<lambda>plainText t. plainText @ rt_PlainText t) [] runs"

definition formattedTextOf :: "RichText list \<Rightarrow> string" where
  "formattedTextOf runs = foldl (\<lambda>plainText t. plainText @ formatBlockHTML t) [] runs"

text \<open>
  The loop of the \<open>paragraph\<close> case: a mention is fetched and rendered as a link, or
  passed over when the fetch fails; any other run is styled.
\<close>

fun paragraphRuns ::
  "Env \<Rightarrow> string \<Rightarrow> RichText list \<Rightarrow> string \<Rightarrow> World \<Rightarrow> string Outcome option" where
  "paragraphRuns env token [] plainText w = ret plainText w"
| "paragraphRuns env token (t # ts) plainText w =
     (if rt_Type t = ''mention''
      then andThen (liftP (deref (rt_Mention t)) w) (\<lambda>mention w.
           andThen (fetchPage env token (mention_PageID mention) w) (\<lambda>r w.
             case r of
               Inl err \<Rightarrow> paragraphRuns env token ts plainText w
             | Inr page \<Rightarrow>
                 andThen (liftP (pageLink env page) w) (\<lambda>link w.
                   paragraphRuns env token ts (plainText @ link) w)))
      else paragraphRuns env token ts (plainText @ formatBlockHTML t) w)"

text \<open>
  The \<open>switch\<close> of \<open>blocksToMarkdown\<close> on the type of one block. It gives what the
  case writes to the builder, and whether the case ended in \<open>continue\<close>, which skips
  the children of the block. The case \<open>"unsupported"\<close> has no statement, and a Go case
  does not fall through into the next one.
\<close>

definition blockSwitch ::
  "Env \<Rightarrow> string \<Rightarrow> NotionBlock \<Rightarrow> bool \<Rightarrow> World \<Rightarrow> (string \<times> bool) Outcome option" where
  "blockSwitch env token block isChildren w =
     (if block_Type block = ''paragraph'' then
        andThen (liftP (deref (block_Paragraph block)) w) (\<lambda>p w.
        andThen (paragraphRuns env token (paragraph_RichText p) [] w) (\<lambda>plainText w.
          ret (plainText @ ''  '' @ newline, False) w))
      else if block_Type block = ''heading_1'' then
        andThen (liftP (deref (Heading1 block)) w) (\<lambda>h w.
          ret (''# '' @ plainTextOf (heading_RichText h) @ ''  '' @ newline, False) w)
      else if block_Type block = ''heading_2'' then
        andThen (liftP (deref (Heading2 block)) w) (\<lambda>h w.
          ret (''## '' @ plainTextOf (heading_RichText h) @ ''  '' @ newline, False) w)
      else if block_Type block = ''heading_3'' then
        andThen (liftP (deref (Heading3 block)) w) (\<lambda>h w.
          ret (''### '' @ plainTextOf (heading_RichText h) @ ''  '' @ newline, False) w)
      else if block_Type block = ''bulleted_list_item'' then
        andThen (liftP (deref (BulltedListItem block)) w) (\<lambda>p w.
          let content = ''- '' @ formattedTextOf (paragraph_RichText p) @ ''  '' @ newline;
              content = (if isChildren then tab @ content else content)
          in ret (content, False) w)
      else if block_Type block = ''table'' then
        andThen (fetchTableContent env token (block_ID block) w) (\<lambda>r w.
          case r of
            Inl err \<Rightarrow> ret (''[Error: Could not fetch table content]'' @ newline, False) w
          | Inr tableRows \<Rightarrow>
              andThen (renderTable env (block_Table block) tableRows w) (\<lambda>t w.
                ret (t @ ''  '' @ newline, False) w))
      else if block_Type block = ''table_row'' then
        andThen (liftP (deref (TableRows block)) w) (\<lambda>row w.
        andThen (renderTable env (block_Table block) [row] w) (\<lambda>t w.
          ret (t @ ''  '' @ newline, False) w))
      else if block_Type block = ''divider'' then
        ret (newline @ ''--- '' @ newline, False) w
      else if block_Type block = ''numbered_list_item'' then
        andThen (liftP (deref (block_NumberedListItem block)) w) (\<lambda>p w.
          let content = ''1. '' @ formattedTextOf (numbered_RichText p) @ ''  '' @ newline;
              content = (if isChildren then tab @ content else content)
          in ret (content, False) w)
      else if block_Type block = ''to_do'' then
        andThen (liftP (deref (block_ToDoItem block)) w) (\<lambda>p w.
          let checkbox = (if todo_Checked p then ''[x]'' else ''[ ]'')
          in ret (checkbox @ '' '' @ formattedTextOf (todo_RichText p) @ ''  '' @ newline, False) w)
      else if block_Type block = ''code'' then
        andThen (liftP (deref (block_Code block)) w) (\<lambda>p w.
          ret (fence @ code_Language p @ ''  '' @ newline @ plainTextOf (code_RichText p)
               @ ''  '' @ newline @ fence @ newline, False) w)
      else if block_Type block = ''quote'' then
        andThen (liftP (deref (block_Quote block)) w) (\<lambda>p w.
          ret (''> '' @ formattedTextOf (quote_RichText p) @ ''  '' @ newline, False) w)
      else if block_Type block = ''callout'' then
        andThen (liftP (deref (block_Callout block)) w) (\<lambda>p w.
          let icon = (if icon_Type (callout_Icon p) = ''emoji''
                      then icon_Emoji (callout_Icon p) @ '' '' else [])
          in ret (''> '' @ icon @ formattedTextOf (callout_RichText p) @ ''  '' @ newline, False) w)
      else if block_Type block = ''image'' then
        andThen (liftP (deref (block_Image block)) w) (\<lambda>image w.
        andThen (liftP (if image_Type image = ''file''
                        then bindP (deref (image_File image)) (\<lambda>f. Inr (file_URL f))
                        else if image_Type image = ''external''
                        then bindP (deref (image_External image)) (\<lambda>l. Inr (link_URL l))
                        else Inr []) w) (\<lambda>url w.
          let staticDir = AssetsDir env @ ''/docs-images'';
              w = ensureDir env staticDir w;
              (caption, url) =
                (case downloadImage env url staticDir of
                   None \<Rightarrow> ([], url)
                 | Some filename \<Rightarrow> (filename, ''/docs-images/'' @ filename))
          in ret (''!['' @ caption @ ''](''  @ url @ '')'' @ newline @ newline, False) w))
      else if block_Type block = ''file'' then
        andThen (liftP (deref (block_File block)) w) (\<lambda>f w.
          ret (''[File]('' @ file_URL f @ '')  '' @ newline, False) w)
      else if block_Type block = ''bookmark'' then
        andThen (liftP (deref (block_Bookmark block)) w) (\<lambda>b w.
          ret (''['' @ plainTextOf (bookmark_Caption b) @ ''](''  @ bookmark_URL b @ '')  ''
               @ newline, False) w)
      else if block_Type block = ''link_to_page'' then
        andThen (liftP (deref (block_LinkToPage block)) w) (\<lambda>l w.
        andThen (fetchPage env token (ltp_PageID l) w) (\<lambda>r w.
          case r of
            Inl err \<Rightarrow> ret ([], True) w
          | Inr page \<Rightarrow>
              andThen (liftP (pageLink env page) w) (\<lambda>link w.
                ret (link @ ''<br/>'', False) w)))
      else if block_Type block = ''unsupported'' then
        ret ([], False) w
      else
        ret (''[Unsupported block type: '' @ block_Type block @ '']  '' @ newline, False) w)"

text \<open>
  The loop of \<open>blocksToMarkdown\<close> over the blocks. What it does with the children of
  a block is its first argument: \<open>blocksToMarkdown\<close> passes itself. The call of
  \<open>blocksToMarkdown\<close> goes as deep as the remote tree; its first argument bounds the
  depth, and it gives \<^term>\<open>None\<close> when the bound is reached.
\<close>

fun blocksLoop ::
  "(NotionBlock list \<Rightarrow> World \<Rightarrow> string Outcome option) \<Rightarrow> Env \<Rightarrow> string
    \<Rightarrow> NotionBlock list \<Rightarrow> bool \<Rightarrow> World \<Rightarrow> string Outcome option" where
  "blocksLoop children env token [] isChildren w = ret [] w"
| "blocksLoop children env token (block # blocks) isChildren w =
     andThen (blockSwitch env token block isChildren w) (\<lambda>(written, continued) w.
     andThen (if \<not> continued \<and> HasChildren block
              then andThen (fetchPageContent env token (block_ID block) w) (\<lambda>r w.
                     case r of
                       Inl err \<Rightarrow> ret [] w
                     | Inr blocks \<Rightarrow> children blocks w)
              else ret [] w) (\<lambda>contentMarkdown w.
     andThen (blocksLoop children env token blocks isChildren w) (\<lambda>rest w.
       ret (written @ contentMarkdown @ rest) w)))"

fun blocksToMarkdown ::
  "nat \<Rightarrow> Env \<Rightarrow> string \<Rightarrow> NotionBlock list \<Rightarrow> bool \<Rightarrow> World \<Rightarrow> string Outcome option" where
  "blocksToMarkdown 0 env token blocks isChildren w = None"
| "blocksToMarkdown (Suc depth) env token blocks isChildren w =
     blocksLoop (\<lambda>blocks. blocksToMarkdown depth env token blocks True)
       env token blocks isChildren w"

section \<open>The tree exporter\<close>

text \<open>\<open>%d\<close> of \<open>fmt.Sprintf\<close>: an integer in decimal.\<close>

function natDigits :: "nat \<Rightarrow> string" where
  "natDigits n =
     (if n < 10 then [''0123456789'' ! n]
      else natDigits (n div 10) @ [''0123456789'' ! (n mod 10)])"
  by pat_completeness auto
termination
  by (relation "measure id") auto

definition itoa :: "int \<Rightarrow> string" where
  "itoa i = (if i < 0 then ''-'' @ natDigits (nat (- i)) else natDigits (nat i))"

fun stringExists :: "string list \<Rightarrow> string \<Rightarrow> bool" where
  "stringExists [] str = False"
| "stringExists (v # slice) str = (if v = str then True else stringExists slice str)"

text \<open>The template of \<open>pageToMarkdown\<close>: the front matter, an empty line, the content.\<close>

definition pageTemplate :: "string \<Rightarrow> string \<Rightarrow> string \<Rightarrow> int \<Rightarrow> string \<Rightarrow> string" where
  "pageTemplate title slug keywordString position contentMarkdown =
     ''---'' @ newline
     @ ''title: '' @ title @ newline
     @ ''slug: '' @ slug @ newline
     @ ''tags: '' @ keywordString @ newline
     @ ''sidebar_position: '' @ itoa position @ newline
     @ ''---'' @ newline
     @ newline
     @ contentMarkdown @ newline"

text \<open>
  \<open>pageToMarkdown\<close>. Its first argument bounds the depth of the blocks of the page
  (see \<open>blocksToMarkdown\<close>). The slug registry is the only state it changes itself.
\<close>

definition pageToMarkdown ::
  "nat \<Rightarrow> Env \<Rightarrow> string \<Rightarrow> NotionPage \<Rightarrow> int \<Rightarrow> World \<Rightarrow> (goerror + string) Outcome option" where
  "pageToMarkdown depth env token page position w =
     andThen (liftP (extractPageProperties page) w) (\<lambda>(title, slug, keywords) w.
     andThen (fetchPageContent env token (page_ID page) w) (\<lambda>r w.
       case r of
         Inl err \<Rightarrow> ret (Inl err) w
       | Inr blocks \<Rightarrow>
           andThen (blocksToMarkdown depth env token blocks False w) (\<lambda>contentMarkdown w.
             let keywordString = ''['' @ keywords @ '']'';
                 slug = replaceAll slug ''('' [];
                 slug = replaceAll slug '')'' [];
                 slug = (if stringExists (slugRegistered w) slug then slug @ ''-dup'' else slug);
                 w = w\<lparr>slugRegistered := slugRegistered w @ [slug]\<rparr>
             in ret (Inr (pageTemplate title slug keywordString position contentMarkdown)) w)))"

text \<open>
  The label of the category file: the title with backslash, double quote, newline, tab,
  carriage return, backspace and form feed escaped, in this order; and the file.
\<close>

definition escapeLabel :: "string \<Rightarrow> string" where
  "escapeLabel title =
     (let title = replaceAll title [CHR 0x5C] [CHR 0x5C, CHR 0x5C];
          title = replaceAll title [CHR 0x22] [CHR 0x5C, CHR 0x22];
          title = replaceAll title [CHR 0x0A] [CHR 0x5C, CHR ''n''];
          title = replaceAll title [CHR 0x09] [CHR 0x5C, CHR ''t''];
          title = replaceAll title [CHR 0x0D] [CHR 0x5C, CHR ''r''];
          title = replaceAll title [CHR 0x08] [CHR 0x5C, CHR ''b''];
          title = replaceAll title [CHR 0x0C] [CHR 0x5C, CHR ''f'']
      in title)"

definition categoryJson :: "string \<Rightarrow> int \<Rightarrow> string" where
  "categoryJson title position =
     ''{'' @ newline
     @ tab @ [CHR 0x22] @ ''label'' @ [CHR 0x22] @ '': '' @ [CHR 0x22] @ title @ [CHR 0x22] @ '',''
     @ newline
     @ tab @ [CHR 0x22] @ ''position'' @ [CHR 0x22] @ '': '' @ itoa position @ newline
     @ ''}''"

text \<open>
  \<open>os.WriteFile\<close>: the call is recorded, and the environment says whether it fails.
\<close>

definition writeFile :: "Env \<Rightarrow> string \<Rightarrow> string \<Rightarrow> World \<Rightarrow> goerror option \<times> World" where
  "writeFile env path content w =
     ((if writeFileFails env (fsOps w) path then Some WriteFileError else None),
      w\<lparr>fsOps := fsOps w @ [WriteFile path content]\<rparr>)"

text \<open>
  The loop of \<open>writeMarkdown\<close> over the child pages, with the index of the child and
  the flag \<open>HasChildren\<close> as arguments. How a child is written is its first argument:
  \<open>writeMarkdown\<close> passes itself.
\<close>

fun writeChildren ::
  "(string \<Rightarrow> NotionPage \<Rightarrow> int \<Rightarrow> World \<Rightarrow> goerror option Outcome option) \<Rightarrow> Env \<Rightarrow> string
    \<Rightarrow> string \<Rightarrow> string list \<Rightarrow> nat \<Rightarrow> bool \<Rightarrow> World \<Rightarrow> bool Outcome option" where
  "writeChildren write env token dir [] cPageIndex hasChildren w = ret hasChildren w"
| "writeChildren write env token dir (child # rest) cPageIndex hasChildren w =
     andThen (fetchPage env token child w) (\<lambda>r w.
       case r of
         Inl err \<Rightarrow> writeChildren write env token dir rest (Suc cPageIndex) hasChildren w
       | Inr childPage \<Rightarrow>
           andThen (write dir childPage (int cPageIndex) w) (\<lambda>err w.
             case err of
               Some e \<Rightarrow> writeChildren write env token dir rest (Suc cPageIndex) hasChildren w
             | None \<Rightarrow> writeChildren write env token dir rest (Suc cPageIndex) True w))"

text \<open>
  \<open>writeMarkdown\<close>, which returns the error of the last write (\<^term>\<open>None\<close> is
  \<open>nil\<close>). Its first argument bounds the depth of the child pages below the page, and
  of the blocks of each.
\<close>

fun writeMarkdown ::
  "nat \<Rightarrow> Env \<Rightarrow> string \<Rightarrow> string \<Rightarrow> NotionPage \<Rightarrow> int \<Rightarrow> World
    \<Rightarrow> goerror option Outcome option" where
  "writeMarkdown 0 env outputDir token page position w = None"
| "writeMarkdown (Suc depth) env outputDir token page position w =
     andThen (pageToMarkdown (Suc depth) env token page position w) (\<lambda>r w.
       case r of
         Inl err \<Rightarrow> ret (Some err) w
       | Inr markdown \<Rightarrow>
           andThen (liftP (extractPageRelations page) w) (\<lambda>(parentId, childPages) w.
           andThen (if length childPages > 0
                    then let dir = outputDir @ ''/'' @ page_ID page;
                             w = ensureDir env dir w
                         in andThen (writeChildren
                                       (\<lambda>dir childPage cPageIndex.
                                           writeMarkdown depth env dir token childPage cPageIndex)
                                       env token dir childPages 0 False w) (\<lambda>hasChildren w.
                              ret (dir, hasChildren) w)
                    else ret (outputDir, False) w) (\<lambda>(dir, hasChildren) w.
           andThen (liftP (extractPageProperties page) w) (\<lambda>(title, slug, keywords) w.
             let title = escapeLabel title;
                 categoryJson = categoryJson title position;
                 (pagename, w) =
                   (if hasChildren
                    then (''index'',
                          snd (writeFile env (dir @ ''/_category_.json'') categoryJson w))
                    else (page_ID page, w));
                 filePath = dir @ ''/'' @ pagename @ ''.md'';
                 (err, w) = writeFile env filePath markdown w
             in ret err w))))"

text \<open>
  The loop of \<open>processBlocks\<close> over one page of results, with the index of the
  result. What it does for a child page with children is its first argument:
  \<open>processBlocks\<close> passes itself.
\<close>

fun processResults ::
  "(string \<Rightarrow> string \<Rightarrow> World \<Rightarrow> unit Outcome option) \<Rightarrow> nat \<Rightarrow> Env \<Rightarrow> string \<Rightarrow> string
    \<Rightarrow> NotionBlock list \<Rightarrow> nat \<Rightarrow> World \<Rightarrow> unit Outcome option" where
  "processResults recurse depth env token outputDir [] index w = ret () w"
| "processResults recurse depth env token outputDir (block # blocks) index w =
     andThen
       (if block_Type block = ''link_to_page'' then
          andThen (liftP (deref (block_LinkToPage block)) w) (\<lambda>l w.
          andThen (fetchPage env token (ltp_PageID l) w) (\<lambda>r w.
            case r of
              Inl err \<Rightarrow> ret () w
            | Inr page \<Rightarrow>
                andThen (writeMarkdown depth env outputDir token page (int index) w)
                  (\<lambda>err w. ret () w)))
        else if block_Type block = ''child_page'' then
          (if HasChildren block
           then andThen (liftP (deref (block_ChildPage block)) w) (\<lambda>c w.
                  let subOutput = outputDir @ ''/'' @ childpage_Title c
                  in recurse (block_ID block) subOutput (mkdirAll subOutput w))
           else ret () w)
        else ret () w)
       (\<lambda>u w. processResults recurse depth env token outputDir blocks (Suc index) w)"

text \<open>
  \<open>processBlocks\<close>: the loop \<open>for hasMore\<close> with the cursor as an argument. A fetch
  that fails ends the process (\<open>log.Fatalf\<close>). The first argument bounds the number
  of pages of results and the depth of the child pages taken together.
\<close>

fun processBlocksFrom ::
  "nat \<Rightarrow> Env \<Rightarrow> string \<Rightarrow> string \<Rightarrow> string \<Rightarrow> string \<Rightarrow> World \<Rightarrow> unit Outcome option" where
  "processBlocksFrom 0 env token blockID outputDir nextCursor w = None"
| "processBlocksFrom (Suc depth) env token blockID outputDir nextCursor w =
     andThen (fetchChildren env token blockID nextCursor w) (\<lambda>r w.
       case r of
         Inl err \<Rightarrow> Some (Fatal w)
       | Inr response \<Rightarrow>
           andThen (processResults (\<lambda>blockID outputDir. processBlocksFrom depth env token blockID outputDir [])
                      (Suc depth) env token outputDir (children_Results response) 0 w) (\<lambda>u w.
             let w = sleep (1 * second) w
             in if children_HasMore response
                then processBlocksFrom depth env token blockID outputDir
                       (children_NextCursor response) w
                else ret () w))"

definition processBlocks ::
  "nat \<Rightarrow> Env \<Rightarrow> string \<Rightarrow> string \<Rightarrow> string \<Rightarrow> World \<Rightarrow> unit Outcome option" where
  "processBlocks depth env token blockID outputDir w =
     processBlocksFrom depth env token blockID outputDir [] w"

section \<open>The run renderer in the words of the specification\<close>

text \<open>
  The tags that a set of annotations selects, in the order in which the renderer
  applies them, and the two halves of a wrap.
\<close>

definition activeTags :: "Annotations \<Rightarrow> string list" where
  "activeTags a =
     map snd (filter fst
       [(Bold a, ''strong''), (Italic a, ''em''), (Underline a, ''u''),
        (Strikethrough a, ''del''), (Code a, ''code'')])"

definition openTag :: "string \<Rightarrow> string" where
  "openTag tag = ''<'' @ tag @ ''>''"

definition closeTag :: "string \<Rightarrow> string" where
  "closeTag tag = ''</'' @ tag @ ''>''"

text \<open>The renderer as the specification words it: the replaced text, wrapped tag by tag.\<close>

definition render_run :: "RichText \<Rightarrow> string" where
  "render_run rt =
     foldl (\<lambda>t tag. openTag tag @ t @ closeTag tag)
       (replaceAll (replaceAll (rt_PlainText rt) middot ''-'') newline ''<br />'')
       (activeTags (rt_Annotations rt))"

section \<open>Vocabulary of the claims about the fetch operations\<close>

text \<open>
  A response is rate-limited when its status is 429. \<open>retried k req\<close> is what \<open>k\<close>
  rate-limited attempts do to the world: each sends the request and sleeps three
  seconds. \<open>afterRetries k req\<close> spells out the world after these and one more
  sending of the request.
\<close>

definition rateLimited :: "HttpOutcome \<Rightarrow> bool" where
  "rateLimited out = (case out of Response status body \<Rightarrow> status = 429 | _ \<Rightarrow> False)"

definition retried :: "nat \<Rightarrow> Request \<Rightarrow> World \<Rightarrow> World" where
  "retried k req w = ((\<lambda>w. sleep (3 * second) (send req w)) ^^ k) w"

definition afterRetries :: "nat \<Rightarrow> Request \<Rightarrow> World \<Rightarrow> World" where
  "afterRetries k req w =
     w\<lparr>clock := clock w + int k * (3 * second),
       requests := requests w @ replicate (Suc k) req,
       sleeps := sleeps w @ replicate k (3 * second)\<rparr>"

text \<open>What each operation returns for an answer that is not rate-limited.\<close>

definition childrenAnswer :: "HttpOutcome \<Rightarrow> goerror + NotionBlockChildrenResponse" where
  "childrenAnswer out =
     (case out of
        DoFailed \<Rightarrow> Inl DoError
      | ReadAllFailed status \<Rightarrow> Inl ReadAllError
      | Response status body \<Rightarrow>
          (case asChildren body of None \<Rightarrow> Inl UnmarshalError | Some data \<Rightarrow> Inr data))"

definition queryAnswer :: "HttpOutcome \<Rightarrow> goerror + NotionQueryResponse" where
  "queryAnswer out =
     (case out of
        DoFailed \<Rightarrow> Inl DoError
      | ReadAllFailed status \<Rightarrow> Inl ReadAllError
      | Response status body \<Rightarrow>
          (case asQuery body of None \<Rightarrow> Inl UnmarshalError | Some data \<Rightarrow> Inr data))"

definition pageAnswer :: "HttpOutcome \<Rightarrow> goerror + NotionPage" where
  "pageAnswer out =
     (case out of
        DoFailed \<Rightarrow> Inl DoError
      | ReadAllFailed status \<Rightarrow> Inl ReadAllError
      | Response status body \<Rightarrow>
          (case asPage body of None \<Rightarrow> Inl UnmarshalError | Some data \<Rightarrow> Inr data))"

definition contentAnswer :: "HttpOutcome \<Rightarrow> goerror + NotionBlock list" where
  "contentAnswer out =
     (case out of
        DoFailed \<Rightarrow> Inl DoError
      | ReadAllFailed status \<Rightarrow> Inl ReadAllError
      | Response status body \<Rightarrow>
          (case asChildren body of
             None \<Rightarrow> Inl UnmarshalError
           | Some data \<Rightarrow> Inr (children_Results data)))"

section \<open>Example environments\<close>

text \<open>
  An environment around a given server, in which every request can be built, nothing
  exists on disk, every write succeeds and no image can be downloaded; the world at the
  start of a run; the body \<open>{}\<close>, which decodes into the zero value of every response
  type; and a body that is not JSON.
\<close>

definition envWith :: "(Request list \<Rightarrow> Request \<Rightarrow> HttpOutcome) \<Rightarrow> Env" where
  "envWith server =
     \<lparr>DocsRoot = ''/docs'', AssetsDir = ''./static'', APIToken = ''secret'',
      newRequestFails = (\<lambda>method url. False),
      roundTrip = server,
      statNotExist = (\<lambda>ops path. True),
      writeFileFails = (\<lambda>ops path. False),
      downloadImage = (\<lambda>url dir. None)\<rparr>"

definition world0 :: World where
  "world0 = \<lparr>clock = 0, requests = [], sleeps = [], fsOps = [], slugRegistered = []\<rparr>"

definition emptyBody :: Body where
  "emptyBody =
     \<lparr>asChildren = Some \<lparr>children_Results = [], children_NextCursor = [],
                          children_HasMore = False\<rparr>,
      asQuery = Some \<lparr>query_Results = [], query_NextCursor = [], query_HasMore = False\<rparr>,
      asPage = Some \<lparr>page_ID = [], Properties = []\<rparr>\<rparr>"

definition badBody :: Body where
  "badBody = \<lparr>asChildren = None, asQuery = None, asPage = None\<rparr>"

text \<open>
  Three servers: one that is rate-limited for the first two requests and then answers
  200 with the body \<open>{}\<close>, one that is always rate-limited, and one that answers
  every request with status 404 and the body \<open>{}\<close>.
\<close>

definition twiceLimited :: "Request list \<Rightarrow> Request \<Rightarrow> HttpOutcome" where
  "twiceLimited sent req = (if length sent < 2 then Response 429 badBody else Response 200 emptyBody)"

definition alwaysLimited :: "Request list \<Rightarrow> Request \<Rightarrow> HttpOutcome" where
  "alwaysLimited sent req = Response 429 badBody"

definition notFound :: "Request list \<Rightarrow> Request \<Rightarrow> HttpOutcome" where
  "notFound sent req = Response 404 emptyBody"

text \<open>A server whose every response has status 429 and a body that cannot be read.\<close>

definition limitedUnreadable :: "Request list \<Rightarrow> Request \<Rightarrow> HttpOutcome" where
  "limitedUnreadable sent req = ReadAllFailed 429"

section \<open>Vocabulary of the claim about the property extractors\<close>

text \<open>
  The types that the extractors assert inside a named property that is there as a JSON
  object: under its list key there is a list, and the first entry of a list that is not
  empty (every entry, for the child relations) is an object with a string under the key
  that is read. A property that is absent, or is not an object, is passed over by the
  two-result assertion and is well typed. The title list is the one list that is
  indexed without a test of its length: a page has an empty title when its "Name" is an
  object whose title list is empty.
\<close>

definition firstHasString :: "json list \<Rightarrow> string \<Rightarrow> bool" where
  "firstHasString a key =
     (case a of
        JObject m # rest \<Rightarrow> (case index_map m key of JString s \<Rightarrow> True | _ \<Rightarrow> False)
      | _ \<Rightarrow> False)"

definition firstStringShaped :: "string \<Rightarrow> string \<Rightarrow> json \<Rightarrow> bool" where
  "firstStringShaped listKey key v =
     (case v of
        JObject p \<Rightarrow>
          (case index_map p listKey of
             JArray a \<Rightarrow> a = [] \<or> firstHasString a key
           | _ \<Rightarrow> False)
      | _ \<Rightarrow> True)"

definition subItemsShaped :: "json \<Rightarrow> bool" where
  "subItemsShaped v =
     (case v of
        JObject p \<Rightarrow>
          (case index_map p ''relation'' of
             JArray a \<Rightarrow> list_all (\<lambda>item. firstHasString [item] ''id'') a
           | _ \<Rightarrow> False)
      | _ \<Rightarrow> True)"

definition wellTyped :: "NotionPage \<Rightarrow> bool" where
  "wellTyped page =
     (firstStringShaped ''title'' ''plain_text'' (index_map (Properties page) ''Name'')
      \<and> firstStringShaped ''rich_text'' ''plain_text'' (index_map (Properties page) ''Slug'')
      \<and> firstStringShaped ''rich_text'' ''plain_text'' (index_map (Properties page) ''Keywords'')
      \<and> firstStringShaped ''relation'' ''id'' (index_map (Properties page) ''Parent'')
      \<and> subItemsShaped (index_map (Properties page) ''Sub-Items''))"

definition emptyTitle :: "NotionPage \<Rightarrow> bool" where
  "emptyTitle page =
     (case index_map (Properties page) ''Name'' of
        JObject p \<Rightarrow> index_map p ''title'' = JArray []
      | _ \<Rightarrow> False)"

text \<open>
  A page whose title list is empty; a page with a title of one run; and a page whose
  only property, "Slug", is of the property type \<open>select\<close> and so has no
  \<open>rich_text\<close> list.
\<close>

definition untitledPage :: NotionPage where
  "untitledPage =
     \<lparr>page_ID = ''p1'', Properties = [(''Name'', JObject [(''title'', JArray [])])]\<rparr>"

definition titledPage :: NotionPage where
  "titledPage =
     \<lparr>page_ID = ''p2'',
      Properties =
        [(''Name'', JObject [(''title'', JArray [JObject [(''plain_text'', JString ''Intro'')]])])]\<rparr>"

definition selectSlugPage :: NotionPage where
  "selectSlugPage =
     \<lparr>page_ID = ''p3'',
      Properties = [(''Slug'', JObject [(''type'', JString ''select''), (''select'', JNull)])]\<rparr>"

text \<open>A block of a given type with no payload and no children.\<close>

definition bareBlock :: "string \<Rightarrow> NotionBlock" where
  "bareBlock t =
     \<lparr>block_ID = ''b1'', HasChildren = False, block_Type = t,
      Heading1 = None, Heading2 = None, Heading3 = None, BulltedListItem = None,
      block_Paragraph = None, block_Table = None, block_NumberedListItem = None,
      block_ToDoItem = None, block_Code = None, block_Quote = None, block_Callout = None,
      block_Image = None, block_File = None, block_Bookmark = None, TableRows = None,
      block_LinkToPage = None, block_ChildPage = None\<rparr>"

section \<open>The table renderer in the words of the specification\<close>

text \<open>
  A run of a cell read as a run of rich text; the text of a cell, which is the styled
  text of its runs with every vertical bar replaced by its entity; a row, whose cells
  are wrapped in the given tag; and the table, whose first row is wrapped in \<open>th\<close>
  and whose other rows are wrapped in \<open>td\<close>.
\<close>

definition asRun :: "TableCell \<Rightarrow> RichText" where
  "asRun c =
     \<lparr>rt_Type = cell_Type c, rt_Annotations = cell_Annotations c,
      rt_PlainText = cell_PlainText c, rt_Mention = cell_Mention c,
      rt_Href = (if cell_Href c = [] then None else Some (cell_Href c))\<rparr>"

definition cellHTML :: "TableCell list \<Rightarrow> string" where
  "cellHTML runs =
     replaceAll (concat (map (\<lambda>rt. formatBlockHTML (asRun rt)) runs)) ''|'' ''&#124;''"

definition rowHTML :: "string \<Rightarrow> TableCell list list \<Rightarrow> string" where
  "rowHTML tag cells =
     ''<tr>'' @ concat (map (\<lambda>c. openTag tag @ cellHTML c @ closeTag tag) cells) @ ''</tr>''"

definition tableHTML :: "TableCell list list list \<Rightarrow> string" where
  "tableHTML rows =
     (case rows of
        [] \<Rightarrow> []
      | first # others \<Rightarrow>
          ''<table>'' @ rowHTML ''th'' first @ concat (map (rowHTML ''td'') others)
          @ ''</table>'')"

text \<open>
  The mentions of a table are resolved over the network, in the order of the rows,
  their cells and their runs: a mention run gets the link to its page as its text, and
  is left out when its page cannot be fetched.
\<close>

fun resolveRuns :: "Env \<Rightarrow> TableCell list \<Rightarrow> World \<Rightarrow> TableCell list Outcome option" where
  "resolveRuns env [] w = ret [] w"
| "resolveRuns env (rt # rest) w =
     (if cell_Type rt = ''mention''
      then andThen (liftP (deref (cell_Mention rt)) w) (\<lambda>mention w.
           andThen (fetchPage env (APIToken env) (mention_PageID mention) w) (\<lambda>r w.
             case r of
               Inl err \<Rightarrow> resolveRuns env rest w
             | Inr page \<Rightarrow>
                 andThen (liftP (pageLink env page) w) (\<lambda>link w.
                 andThen (resolveRuns env rest w) (\<lambda>runs w.
                   ret (rt\<lparr>cell_PlainText := link\<rparr> # runs) w))))
      else andThen (resolveRuns env rest w) (\<lambda>runs w. ret (rt # runs) w))"

fun resolveCells ::
  "Env \<Rightarrow> TableCell list list \<Rightarrow> World \<Rightarrow> TableCell list list Outcome option" where
  "resolveCells env [] w = ret [] w"
| "resolveCells env (cell # cells) w =
     andThen (resolveRuns env cell w) (\<lambda>runs w.
     andThen (resolveCells env cells w) (\<lambda>rest w. ret (runs # rest) w))"

fun resolveRows ::
  "Env \<Rightarrow> TableRow list \<Rightarrow> World \<Rightarrow> TableCell list list list Outcome option" where
  "resolveRows env [] w = ret [] w"
| "resolveRows env (row # rows) w =
     andThen (resolveCells env (Cells row) w) (\<lambda>cells w.
     andThen (resolveRows env rows w) (\<lambda>rest w. ret (cells # rest) w))"

definition mentionFree :: "TableRow list \<Rightarrow> bool" where
  "mentionFree rows =
     list_all (\<lambda>row. list_all (list_all (\<lambda>rt. cell_Type rt \<noteq> ''mention'')) (Cells row)) rows"

definition plainCell :: "string \<Rightarrow> TableCell list" where
  "plainCell s =
     [\<lparr>cell_Type = ''text'',
       cell_Annotations = \<lparr>Bold = False, Italic = False, Strikethrough = False,
                           Underline = False, Code = False, Color = ''default''\<rparr>,
       cell_PlainText = s, cell_Href = [], cell_Mention = None\<rparr>]"

definition exampleRows :: "TableRow list" where
  "exampleRows =
     [\<lparr>Cells = [plainCell ''a'', plainCell ''b|c'']\<rparr>,
      \<lparr>Cells = [plainCell ''1'', plainCell ''2'']\<rparr>]"

definition exampleTable :: Table where
  "exampleTable = \<lparr>TableWidth = 2, HasColumnHeader = True, HasRowHeader = False\<rparr>"

text \<open>
  A server whose every answer is a listing of one block, a child page without
  children.
\<close>

definition childPageListing :: "Request list \<Rightarrow> Request \<Rightarrow> HttpOutcome" where
  "childPageListing sent req =
     Response 200
       \<lparr>asChildren = Some \<lparr>children_Results = [bareBlock ''child_page''],
                            children_NextCursor = [], children_HasMore = False\<rparr>,
        asQuery = None, asPage = None\<rparr>"

section \<open>Vocabulary of the claims about the tree exporter\<close>

text \<open>
  An operation keeps the slug registry when the world it returns has the registry of
  the world it started from. The slug that a page computes is the slug of its
  properties without parentheses.
\<close>

definition keepsSlugs :: "'a Outcome option \<Rightarrow> World \<Rightarrow> bool" where
  "keepsSlugs m w = (\<forall>x w'. m = Some (Return x w') \<longrightarrow> slugRegistered w' = slugRegistered w)"

definition computedSlug :: "NotionPage \<Rightarrow> string option" where
  "computedSlug page =
     (case extractPageProperties page of
        Inl p \<Rightarrow> None
      | Inr (title, slug, keywords) \<Rightarrow> Some (replaceAll (replaceAll slug ''('' []) '')'' []))"

text \<open>
  A page whose only property is the given slug, and a server that answers every
  request with status 200 and the body \<open>{}\<close>: every page has no blocks.
\<close>

definition slugPage :: "string \<Rightarrow> string \<Rightarrow> NotionPage" where
  "slugPage pageID slug =
     \<lparr>page_ID = pageID,
      Properties =
        [(''Slug'', JObject [(''rich_text'', JArray [JObject [(''plain_text'', JString slug)]])])]\<rparr>"

definition emptyListing :: "Request list \<Rightarrow> Request \<Rightarrow> HttpOutcome" where
  "emptyListing sent req = Response 200 emptyBody"

text \<open>
  A page with one child relation \<open>c1\<close> and the title \<open>Guide\<close>; a server on which
  the page \<open>c1\<close> cannot be fetched; and a server on which it is a page without
  properties. Both answer every other request with status 200 and the body \<open>{}\<close>.
\<close>

definition parentPage :: NotionPage where
  "parentPage =
     \<lparr>page_ID = ''p1'',
      Properties =
        [(''Name'', JObject [(''title'', JArray [JObject [(''plain_text'', JString ''Guide'')]])]),
         (''Sub-Items'', JObject [(''relation'', JArray [JObject [(''id'', JString ''c1'')]])])]\<rparr>"

definition childUnreachable :: "Request list \<Rightarrow> Request \<Rightarrow> HttpOutcome" where
  "childUnreachable sent req =
     (if req_URL req = pageURL ''c1'' then DoFailed else Response 200 emptyBody)"

definition childReachable :: "Request list \<Rightarrow> Request \<Rightarrow> HttpOutcome" where
  "childReachable sent req =
     (if req_URL req = pageURL ''c1''
      then Response 200
             \<lparr>asChildren = None, asQuery = None,
              asPage = Some \<lparr>page_ID = ''c1'', Properties = []\<rparr>\<rparr>
      else Response 200 emptyBody)"

section \<open>Properties of the run renderer\<close>

lemma replaceAll_single:
  "replaceAll s [c] new = concat (map (\<lambda>x. if x = c then new else [x]) s)"
  by (induction s) auto

lemma replaceAll_middot_head:
  "replaceAll (d # s) middot ''-'' = x # r \<Longrightarrow> x = CHR ''-'' \<or> x = d"
  by (auto split: if_splits)

lemma sublist_pair_Cons:
  "sublist [a, b] (c # s) \<longleftrightarrow> (c = a \<and> (\<exists>s'. s = b # s')) \<or> sublist [a, b] s"
  by (cases s) (auto simp: sublist_Cons_right prefix_Cons)

lemma replaceAll_middot_free: "\<not> sublist middot (replaceAll s middot ''-'')"
proof (induction s middot "''-''" rule: replaceAll.induct)
  case 1
  show ?case by (simp add: middot_def)
next
  case (2 c s)
  show ?case
  proof (cases "take (length middot) (c # s) = middot")
    case True
    with 2 have "\<not> sublist middot (replaceAll (drop (length middot) (c # s)) middot ''-'')"
      by (simp add: middot_def)
    with True show ?thesis
      by (simp add: middot_def sublist_pair_Cons)
  next
    case False
    with 2 have ih: "\<not> sublist middot (replaceAll s middot ''-'')"
      by simp
    have "\<not> (c = CHR 0xC2 \<and> (\<exists>r. replaceAll s middot ''-'' = CHR 0xB7 # r))"
    proof
      assume h: "c = CHR 0xC2 \<and> (\<exists>r. replaceAll s middot ''-'' = CHR 0xB7 # r)"
      then obtain r where r: "replaceAll s middot ''-'' = CHR 0xB7 # r" by blast
      then obtain d s' where s: "s = d # s'" by (cases s) auto
      from r s replaceAll_middot_head have "d = CHR 0xB7" by fastforce
      with h s False show False by (simp add: middot_def)
    qed
    with ih False show ?thesis
      by (simp add: sublist_pair_Cons[of "CHR 0xC2" "CHR 0xB7", folded middot_def])
  qed
qed

lemma newline_concat_head:
  "concat (map (\<lambda>x. if x = CHR 0x0A then ''<br />'' else [x]) s) = CHR 0xB7 # r
   \<Longrightarrow> \<exists>s'. s = CHR 0xB7 # s'"
  by (cases s) (auto split: if_splits)

lemma replaceAll_newline_keeps_middot_free:
  "\<not> sublist middot s \<Longrightarrow> \<not> sublist middot (replaceAll s newline ''<br />'')"
proof (induction s)
  case Nil
  show ?case by (simp add: middot_def)
next
  case (Cons c s)
  from Cons.prems have tl: "\<not> sublist middot s"
    by (simp add: middot_def sublist_pair_Cons)
  with Cons.IH have ih: "\<not> sublist middot (replaceAll s newline ''<br />'')" by simp
  show ?case
  proof (cases "c = CHR 0x0A")
    case True
    with ih show ?thesis
      by (simp add: newline_def middot_def sublist_pair_Cons)
  next
    case False
    from Cons.prems have "\<not> (c = CHR 0xC2 \<and> (\<exists>s'. s = CHR 0xB7 # s'))"
      by (simp add: middot_def sublist_pair_Cons)
    with newline_concat_head
    have "\<not> (c = CHR 0xC2 \<and> (\<exists>r. replaceAll s newline ''<br />'' = CHR 0xB7 # r))"
      unfolding newline_def replaceAll_single by blast
    with ih False show ?thesis
      by (simp add: newline_def sublist_pair_Cons[of "CHR 0xC2" "CHR 0xB7", folded middot_def])
  qed
qed

lemma replaceAll_newline_free: "\<not> sublist newline (replaceAll s newline ''<br />'')"
proof -
  have "CHR 0x0A \<notin> set (replaceAll s newline ''<br />'')"
    unfolding newline_def replaceAll_single by (induction s) auto
  then show ?thesis
    by (auto simp: newline_def sublist_def)
qed

lemma formatBlockHTML_render_run: "formatBlockHTML rt = render_run rt"
  by (simp add: formatBlockHTML_def render_run_def activeTags_def openTag_def closeTag_def)

lemma foldl_wrap:
  "foldl (\<lambda>t tag. openTag tag @ t @ closeTag tag) body tags =
   concat (map openTag (rev tags)) @ body @ concat (map closeTag tags)"
  by (induction tags arbitrary: body) simp_all

text \<open>
  C1. For every run and every combination of the five flags, \<open>formatBlockHTML\<close>
  gives the text in which every middle dot has become a hyphen and then every newline
  a line break (no middle dot and no newline is left in it), inside one pair of tags for
  each flag that is set: the tags are those of the set flags, each once, in the order
  strong, em, u, del, code from the innermost outwards.
\<close>

theorem formatBlockHTML_nesting:
  "formatBlockHTML rt =
     concat (map openTag (rev (activeTags (rt_Annotations rt))))
     @ replaceAll (replaceAll (rt_PlainText rt) middot ''-'') newline ''<br />''
     @ concat (map closeTag (activeTags (rt_Annotations rt)))
   \<and> formatBlockHTML rt = render_run rt
   \<and> distinct (activeTags (rt_Annotations rt))
   \<and> subseq (activeTags (rt_Annotations rt)) [''strong'', ''em'', ''u'', ''del'', ''code'']
   \<and> \<not> sublist middot (replaceAll (replaceAll (rt_PlainText rt) middot ''-'') newline ''<br />'')
   \<and> \<not> sublist newline (replaceAll (replaceAll (rt_PlainText rt) middot ''-'') newline ''<br />'')"
proof -
  have "formatBlockHTML rt =
     concat (map openTag (rev (activeTags (rt_Annotations rt))))
     @ replaceAll (replaceAll (rt_PlainText rt) middot ''-'') newline ''<br />''
     @ concat (map closeTag (activeTags (rt_Annotations rt)))"
    unfolding formatBlockHTML_render_run render_run_def foldl_wrap ..
  moreover have "distinct (activeTags (rt_Annotations rt))"
    by (simp add: activeTags_def)
  moreover have "subseq (activeTags (rt_Annotations rt)) [''strong'', ''em'', ''u'', ''del'', ''code'']"
    by (simp add: activeTags_def)
  ultimately show ?thesis
    using replaceAll_middot_free replaceAll_newline_keeps_middot_free replaceAll_newline_free
      formatBlockHTML_render_run
    by blast
qed

theorem formatBlockHTML_nesting_witness:
  "formatBlockHTML
     \<lparr>rt_Type = ''text'',
      rt_Annotations = \<lparr>Bold = True, Italic = False, Strikethrough = True,
                        Underline = False, Code = True, Color = ''default''\<rparr>,
      rt_PlainText = ''a'' @ middot @ newline @ ''b'', rt_Mention = None, rt_Href = None\<rparr>
   = ''<code><del><strong>a-<br />b</strong></del></code>''"
  using formatBlockHTML_nesting
    [of "\<lparr>rt_Type = ''text'',
      rt_Annotations = \<lparr>Bold = True, Italic = False, Strikethrough = True,
                        Underline = False, Code = True, Color = ''default''\<rparr>,
      rt_PlainText = ''a'' @ middot @ newline @ ''b'', rt_Mention = None, rt_Href = None\<rparr>"]
  by (simp add: activeTags_def openTag_def closeTag_def middot_def newline_def)

section \<open>Properties of the response cache\<close>

text \<open>
  C2 (as amended). For every cache, key, value and TTL, a \<open>Get\<close> of the key at time
  \<open>t\<close> after a \<open>Set\<close> at time \<open>t0\<close> returns the value and \<open>true\<close> exactly when
  \<open>t\<close> is not after the expiry instant \<open>t0 + ttl\<close>, and \<open>nil\<close> and \<open>false\<close>
  otherwise: at the expiry instant itself the value is still returned.
\<close>

theorem Get_after_Set:
  "Get (Set c key data ttl t0) key t =
     (if t \<le> t0 + ttl then (data, True) else (None, False))"
  by (auto simp: Get_def Set_def)

theorem Get_after_Set_witness:
  "Get (Set NewCache ''url'' (Some (7::nat)) (600 * second) 0) ''url'' 1 = (Some 7, True)
   \<and> Get (Set NewCache ''url'' (Some (7::nat)) (600 * second) 0) ''url'' (601 * second)
       = (None, False)"
  using Get_after_Set [of NewCache "''url''" "Some (7::nat)" "600 * second" 0 1]
    Get_after_Set [of NewCache "''url''" "Some (7::nat)" "600 * second" 0 "601 * second"]
  by (simp add: second_def)

text \<open>
  The claim as it was stated asks for not-found as soon as the time is not strictly
  before the expiry instant. At the expiry instant the cache still answers.
\<close>

theorem Get_at_expiry_counterexample:
  "Get (Set NewCache ''url'' (Some (7::nat)) (600 * second) 0) ''url'' (0 + 600 * second)
     = (Some 7, True)
   \<and> \<not> (0 + 600 * second < 0 + 600 * second)"
  by (simp add: Get_def Set_def NewCache_def second_def)

section \<open>Properties of the fetch operations\<close>

lemma Get_NewCache: "Get NewCache url t = (None, False)"
  by (simp add: Get_def NewCache_def)

lemma requests_retried: "requests (retried k req w) = requests w @ replicate k req"
  by (induction k) (simp_all add: retried_def sleep_def send_def replicate_append_same)

lemma sleeps_retried: "sleeps (retried k req w) = sleeps w @ replicate k (3 * second)"
  by (induction k) (simp_all add: retried_def sleep_def send_def replicate_append_same)

lemma retried_Suc: "retried (Suc k) req w = retried k req (sleep (3 * second) (send req w))"
  by (simp only: retried_def funpow_Suc_right o_apply)

lemma retried_explicit:
  "retried k req w =
     w\<lparr>clock := clock w + int k * (3 * second),
       requests := requests w @ replicate k req,
       sleeps := sleeps w @ replicate k (3 * second)\<rparr>"
  by (induction k)
     (simp_all add: retried_def sleep_def send_def replicate_append_same algebra_simps)

lemma send_retried: "send req (retried k req w) = afterRetries k req w"
  by (simp add: retried_explicit afterRetries_def send_def replicate_append_same)

lemma fetchChildren_429:
  assumes "\<not> newRequestFails env ''GET'' (childrenURL blockID)"
    and "rateLimited (roundTrip env (requests w) (childrenRequest token blockID cursor))"
  shows "fetchChildren env token blockID cursor w =
         fetchChildren env token blockID cursor (sleep (3 * second) (send (childrenRequest token blockID cursor) w))"
  using assms
  by (subst fetchChildren.simps)
     (simp add: Get_NewCache rateLimited_def split: HttpOutcome.splits)

lemma fetchChildren_answer:
  assumes "\<not> newRequestFails env ''GET'' (childrenURL blockID)"
    and "\<not> rateLimited (roundTrip env (requests w) (childrenRequest token blockID cursor))"
  shows "fetchChildren env token blockID cursor w =
         Some (Return (childrenAnswer (roundTrip env (requests w) (childrenRequest token blockID cursor)))
                 (send (childrenRequest token blockID cursor) w))"
  using assms
  by (subst fetchChildren.simps)
     (simp add: Get_NewCache rateLimited_def childrenAnswer_def
           split: HttpOutcome.splits option.splits)

lemma fetchChildren_no_request:
  assumes "newRequestFails env ''GET'' (childrenURL blockID)"
  shows "fetchChildren env token blockID cursor w = Some (Return (Inl NewRequestError) w)"
  using assms
  by (subst fetchChildren.simps) (simp add: Get_NewCache)

lemma fetchChildren_retried:
  assumes "\<not> newRequestFails env ''GET'' (childrenURL blockID)"
    and "\<forall>i<k. rateLimited (roundTrip env (requests w @ replicate i (childrenRequest token blockID cursor)) (childrenRequest token blockID cursor))"
  shows "fetchChildren env token blockID cursor w = fetchChildren env token blockID cursor (retried k (childrenRequest token blockID cursor) w)"
  using assms(2)
proof (induction k arbitrary: w)
  case 0
  show ?case by (simp add: retried_def)
next
  case (Suc k)
  let ?req = "childrenRequest token blockID cursor"
  let ?w = "sleep (3 * second) (send ?req w)"
  from Suc.prems have "rateLimited (roundTrip env (requests w @ replicate 0 ?req) ?req)"
    by blast
  then have first: "fetchChildren env token blockID cursor w = fetchChildren env token blockID cursor ?w"
    using fetchChildren_429 [OF assms(1)] by simp
  have "\<forall>i<k. rateLimited (roundTrip env (requests ?w @ replicate i ?req) ?req)"
  proof (intro allI impI)
    fix i assume "i < k"
    then have "rateLimited (roundTrip env (requests w @ replicate (Suc i) ?req) ?req)"
      using Suc.prems by auto
    then show "rateLimited (roundTrip env (requests ?w @ replicate i ?req) ?req)"
      by (simp add: sleep_def send_def)
  qed
  from Suc.IH [OF this] first show ?case
    by (simp add: retried_Suc)
qed

lemma fetchChildren_returns:
  assumes ok: "\<not> newRequestFails env ''GET'' (childrenURL blockID)"
    and limited: "\<forall>i<k. rateLimited (roundTrip env (requests w @ replicate i (childrenRequest token blockID cursor)) (childrenRequest token blockID cursor))"
    and answered: "\<not> rateLimited (roundTrip env (requests w @ replicate k (childrenRequest token blockID cursor)) (childrenRequest token blockID cursor))"
  shows "fetchChildren env token blockID cursor w =
         Some (Return (childrenAnswer (roundTrip env (requests w @ replicate k (childrenRequest token blockID cursor)) (childrenRequest token blockID cursor)))
                 (afterRetries k (childrenRequest token blockID cursor) w))"
proof -
  let ?req = "childrenRequest token blockID cursor"
  have "fetchChildren env token blockID cursor w = fetchChildren env token blockID cursor (retried k ?req w)"
    by (rule fetchChildren_retried [OF ok limited])
  also have "\<dots> = Some (Return (childrenAnswer (roundTrip env (requests (retried k ?req w)) ?req))
                       (send ?req (retried k ?req w)))"
    by (rule fetchChildren_answer [OF ok]) (simp add: requests_retried answered)
  finally show ?thesis
    by (simp add: requests_retried send_retried)
qed

lemma fetchChildren_never:
  assumes ret: "fetchChildren e t b c v = Some y"
    and ok: "\<not> newRequestFails env ''GET'' (childrenURL blockID)"
    and always: "\<forall>i. rateLimited (roundTrip env (requests w @ replicate i (childrenRequest token blockID cursor)) (childrenRequest token blockID cursor))"
  shows "\<not> (e = env \<and> t = token \<and> b = blockID \<and> c = cursor
         \<and> (\<exists>k. v = retried k (childrenRequest token blockID cursor) w))"
proof (rule fetchChildren.raw_induct
    [where P = "\<lambda>e t b c v y. \<not> (e = env \<and> t = token \<and> b = blockID \<and> c = cursor
         \<and> (\<exists>k. v = retried k (childrenRequest token blockID cursor) w))", OF _ ret],
    goal_cases)
  case (1 fetch e t b c v y)
  note IH = 1(1) and step = 1(2)
  let ?req = "childrenRequest token blockID cursor"
  show ?case
  proof
    assume h: "e = env \<and> t = token \<and> b = blockID \<and> c = cursor \<and> (\<exists>k. v = retried k ?req w)"
    then obtain k where k: "v = retried k ?req w" by blast
    from h have eqs: "e = env" "t = token" "b = blockID" "c = cursor" by simp_all
    from always have "rateLimited (roundTrip env (requests v) ?req)"
      by (simp add: k requests_retried)
    then obtain body where "roundTrip env (requests v) ?req = Response 429 body"
      by (auto simp: rateLimited_def split: HttpOutcome.splits)
    with step ok
    have "fetch env token blockID cursor (sleep (3 * second) (send ?req v)) = Some y"
      by (simp add: eqs Get_NewCache)
    moreover have "sleep (3 * second) (send ?req v) = retried (Suc k) ?req w"
      by (simp add: k retried_def)
    ultimately show False using IH by blast
  qed
qed

lemma fetchChildren_forever:
  assumes "\<not> newRequestFails env ''GET'' (childrenURL blockID)"
    and "\<forall>i. rateLimited (roundTrip env (requests w @ replicate i (childrenRequest token blockID cursor)) (childrenRequest token blockID cursor))"
  shows "fetchChildren env token blockID cursor w = None"
proof -
  have "retried 0 (childrenRequest token blockID cursor) w = w"
    by (simp add: retried_def)
  then have "\<exists>k. w = retried k (childrenRequest token blockID cursor) w"
    by (intro exI [of _ 0]) simp
  then have "fetchChildren env token blockID cursor w \<noteq> Some y" for y
    using fetchChildren_never [OF _ assms, of env token blockID cursor w y]
    by blast
  then show ?thesis by (cases "fetchChildren env token blockID cursor w") auto
qed

lemma fetchPagesFromDatabase_429:
  assumes "\<not> newRequestFails env ''POST'' (queryURL databaseID)"
    and "rateLimited (roundTrip env (requests w) (queryRequest token databaseID cursor))"
  shows "fetchPagesFromDatabase env token databaseID cursor w =
         fetchPagesFromDatabase env token databaseID cursor (sleep (3 * second) (send (queryRequest token databaseID cursor) w))"
  using assms
  by (subst fetchPagesFromDatabase.simps)
     (simp add: Get_NewCache rateLimited_def split: HttpOutcome.splits)

lemma fetchPagesFromDatabase_answer:
  assumes "\<not> newRequestFails env ''POST'' (queryURL databaseID)"
    and "\<not> rateLimited (roundTrip env (requests w) (queryRequest token databaseID cursor))"
  shows "fetchPagesFromDatabase env token databaseID cursor w =
         Some (Return (queryAnswer (roundTrip env (requests w) (queryRequest token databaseID cursor)))
                 (send (queryRequest token databaseID cursor) w))"
  using assms
  by (subst fetchPagesFromDatabase.simps)
     (simp add: Get_NewCache rateLimited_def queryAnswer_def
           split: HttpOutcome.splits option.splits)

lemma fetchPagesFromDatabase_no_request:
  assumes "newRequestFails env ''POST'' (queryURL databaseID)"
  shows "fetchPagesFromDatabase env token databaseID cursor w = Some (Return (Inl NewRequestError) w)"
  using assms
  by (subst fetchPagesFromDatabase.simps) (simp add: Get_NewCache)

lemma fetchPagesFromDatabase_retried:
  assumes "\<not> newRequestFails env ''POST'' (queryURL databaseID)"
    and "\<forall>i<k. rateLimited (roundTrip env (requests w @ replicate i (queryRequest token databaseID cursor)) (queryRequest token databaseID cursor))"
  shows "fetchPagesFromDatabase env token databaseID cursor w = fetchPagesFromDatabase env token databaseID cursor (retried k (queryRequest token databaseID cursor) w)"
  using assms(2)
proof (induction k arbitrary: w)
  case 0
  show ?case by (simp add: retried_def)
next
  case (Suc k)
  let ?req = "queryRequest token databaseID cursor"
  let ?w = "sleep (3 * second) (send ?req w)"
  from Suc.prems have "rateLimited (roundTrip env (requests w @ replicate 0 ?req) ?req)"
    by blast
  then have first: "fetchPagesFromDatabase env token databaseID cursor w = fetchPagesFromDatabase env token databaseID cursor ?w"
    using fetchPagesFromDatabase_429 [OF assms(1)] by simp
  have "\<forall>i<k. rateLimited (roundTrip env (requests ?w @ replicate i ?req) ?req)"
  proof (intro allI impI)
    fix i assume "i < k"
    then have "rateLimited (roundTrip env (requests w @ replicate (Suc i) ?req) ?req)"
      using Suc.prems by auto
    then show "rateLimited (roundTrip env (requests ?w @ replicate i ?req) ?req)"
      by (simp add: sleep_def send_def)
  qed
  from Suc.IH [OF this] first show ?case
    by (simp add: retried_Suc)
qed

lemma fetchPagesFromDatabase_returns:
  assumes ok: "\<not> newRequestFails env ''POST'' (queryURL databaseID)"
    and limited: "\<forall>i<k. rateLimited (roundTrip env (requests w @ replicate i (queryRequest token databaseID cursor)) (queryRequest token databaseID cursor))"
    and answered: "\<not> rateLimited (roundTrip env (requests w @ replicate k (queryRequest token databaseID cursor)) (queryRequest token databaseID cursor))"
  shows "fetchPagesFromDatabase env token databaseID cursor w =
         Some (Return (queryAnswer (roundTrip env (requests w @ replicate k (queryRequest token databaseID cursor)) (queryRequest token databaseID cursor)))
                 (afterRetries k (queryRequest token databaseID cursor) w))"
proof -
  let ?req = "queryRequest token databaseID cursor"
  have "fetchPagesFromDatabase env token databaseID cursor w = fetchPagesFromDatabase env token databaseID cursor (retried k ?req w)"
    by (rule fetchPagesFromDatabase_retried [OF ok limited])
  also have "\<dots> = Some (Return (queryAnswer (roundTrip env (requests (retried k ?req w)) ?req))
                       (send ?req (retried k ?req w)))"
    by (rule fetchPagesFromDatabase_answer [OF ok]) (simp add: requests_retried answered)
  finally show ?thesis
    by (simp add: requests_retried send_retried)
qed

lemma fetchPagesFromDatabase_never:
  assumes ret: "fetchPagesFromDatabase e t b c v = Some y"
    and ok: "\<not> newRequestFails env ''POST'' (queryURL databaseID)"
    and always: "\<forall>i. rateLimited (roundTrip env (requests w @ replicate i (queryRequest token databaseID cursor)) (queryRequest token databaseID cursor))"
  shows "\<not> (e = env \<and> t = token \<and> b = databaseID \<and> c = cursor
         \<and> (\<exists>k. v = retried k (queryRequest token databaseID cursor) w))"
proof (rule fetchPagesFromDatabase.raw_induct
    [where P = "\<lambda>e t b c v y. \<not> (e = env \<and> t = token \<and> b = databaseID \<and> c = cursor
         \<and> (\<exists>k. v = retried k (queryRequest token databaseID cursor) w))", OF _ ret],
    goal_cases)
  case (1 fetch e t b c v y)
  note IH = 1(1) and step = 1(2)
  let ?req = "queryRequest token databaseID cursor"
  show ?case
  proof
    assume h: "e = env \<and> t = token \<and> b = databaseID \<and> c = cursor \<and> (\<exists>k. v = retried k ?req w)"
    then obtain k where k: "v = retried k ?req w" by blast
    from h have eqs: "e = env" "t = token" "b = databaseID" "c = cursor" by simp_all
    from always have "rateLimited (roundTrip env (requests v) ?req)"
      by (simp add: k requests_retried)
    then obtain body where "roundTrip env (requests v) ?req = Response 429 body"
      by (auto simp: rateLimited_def split: HttpOutcome.splits)
    with step ok
    have "fetch env token databaseID cursor (sleep (3 * second) (send ?req v)) = Some y"
      by (simp add: eqs Get_NewCache)
    moreover have "sleep (3 * second) (send ?req v) = retried (Suc k) ?req w"
      by (simp add: k retried_def)
    ultimately show False using IH by blast
  qed
qed

lemma fetchPagesFromDatabase_forever:
  assumes "\<not> newRequestFails env ''POST'' (queryURL databaseID)"
    and "\<forall>i. rateLimited (roundTrip env (requests w @ replicate i (queryRequest token databaseID cursor)) (queryRequest token databaseID cursor))"
  shows "fetchPagesFromDatabase env token databaseID cursor w = None"
proof -
  have "retried 0 (queryRequest token databaseID cursor) w = w"
    by (simp add: retried_def)
  then have "\<exists>k. w = retried k (queryRequest token databaseID cursor) w"
    by (intro exI [of _ 0]) simp
  then have "fetchPagesFromDatabase env token databaseID cursor w \<noteq> Some y" for y
    using fetchPagesFromDatabase_never [OF _ assms, of env token databaseID cursor w y]
    by blast
  then show ?thesis by (cases "fetchPagesFromDatabase env token databaseID cursor w") auto
qed

lemma fetchPage_429:
  assumes "\<not> newRequestFails env ''GET'' (pageURL pageID)"
    and "rateLimited (roundTrip env (requests w) (pageRequest token pageID))"
  shows "fetchPage env token pageID w =
         fetchPage env token pageID (sleep (3 * second) (send (pageRequest token pageID) w))"
  using assms
  by (subst fetchPage.simps)
     (simp add: Get_NewCache rateLimited_def split: HttpOutcome.splits)

lemma fetchPage_answer:
  assumes "\<not> newRequestFails env ''GET'' (pageURL pageID)"
    and "\<not> rateLimited (roundTrip env (requests w) (pageRequest token pageID))"
  shows "fetchPage env token pageID w =
         Some (Return (pageAnswer (roundTrip env (requests w) (pageRequest token pageID)))
                 (send (pageRequest token pageID) w))"
  using assms
  by (subst fetchPage.simps)
     (simp add: Get_NewCache rateLimited_def pageAnswer_def
           split: HttpOutcome.splits option.splits)

lemma fetchPage_no_request:
  assumes "newRequestFails env ''GET'' (pageURL pageID)"
  shows "fetchPage env token pageID w = Some (Return (Inl NewRequestError) w)"
  using assms
  by (subst fetchPage.simps) (simp add: Get_NewCache)

lemma fetchPage_retried:
  assumes "\<not> newRequestFails env ''GET'' (pageURL pageID)"
    and "\<forall>i<k. rateLimited (roundTrip env (requests w @ replicate i (pageRequest token pageID)) (pageRequest token pageID))"
  shows "fetchPage env token pageID w = fetchPage env token pageID (retried k (pageRequest token pageID) w)"
  using assms(2)
proof (induction k arbitrary: w)
  case 0
  show ?case by (simp add: retried_def)
next
  case (Suc k)
  let ?req = "pageRequest token pageID"
  let ?w = "sleep (3 * second) (send ?req w)"
  from Suc.prems have "rateLimited (roundTrip env (requests w @ replicate 0 ?req) ?req)"
    by blast
  then have first: "fetchPage env token pageID w = fetchPage env token pageID ?w"
    using fetchPage_429 [OF assms(1)] by simp
  have "\<forall>i<k. rateLimited (roundTrip env (requests ?w @ replicate i ?req) ?req)"
  proof (intro allI impI)
    fix i assume "i < k"
    then have "rateLimited (roundTrip env (requests w @ replicate (Suc i) ?req) ?req)"
      using Suc.prems by auto
    then show "rateLimited (roundTrip env (requests ?w @ replicate i ?req) ?req)"
      by (simp add: sleep_def send_def)
  qed
  from Suc.IH [OF this] first show ?case
    by (simp add: retried_Suc)
qed

lemma fetchPage_returns:
  assumes ok: "\<not> newRequestFails env ''GET'' (pageURL pageID)"
    and limited: "\<forall>i<k. rateLimited (roundTrip env (requests w @ replicate i (pageRequest token pageID)) (pageRequest token pageID))"
    and answered: "\<not> rateLimited (roundTrip env (requests w @ replicate k (pageRequest token pageID)) (pageRequest token pageID))"
  shows "fetchPage env token pageID w =
         Some (Return (pageAnswer (roundTrip env (requests w @ replicate k (pageRequest token pageID)) (pageRequest token pageID)))
                 (afterRetries k (pageRequest token pageID) w))"
proof -
  let ?req = "pageRequest token pageID"
  have "fetchPage env token pageID w = fetchPage env token pageID (retried k ?req w)"
    by (rule fetchPage_retried [OF ok limited])
  also have "\<dots> = Some (Return (pageAnswer (roundTrip env (requests (retried k ?req w)) ?req))
                       (send ?req (retried k ?req w)))"
    by (rule fetchPage_answer [OF ok]) (simp add: requests_retried answered)
  finally show ?thesis
    by (simp add: requests_retried send_retried)
qed

lemma fetchPage_never:
  assumes ret: "fetchPage e t b v = Some y"
    and ok: "\<not> newRequestFails env ''GET'' (pageURL pageID)"
    and always: "\<forall>i. rateLimited (roundTrip env (requests w @ replicate i (pageRequest token pageID)) (pageRequest token pageID))"
  shows "\<not> (e = env \<and> t = token \<and> b = pageID
         \<and> (\<exists>k. v = retried k (pageRequest token pageID) w))"
proof (rule fetchPage.raw_induct
    [where P = "\<lambda>e t b v y. \<not> (e = env \<and> t = token \<and> b = pageID
         \<and> (\<exists>k. v = retried k (pageRequest token pageID) w))", OF _ ret],
    goal_cases)
  case (1 fetch e t b v y)
  note IH = 1(1) and step = 1(2)
  let ?req = "pageRequest token pageID"
  show ?case
  proof
    assume h: "e = env \<and> t = token \<and> b = pageID \<and> (\<exists>k. v = retried k ?req w)"
    then obtain k where k: "v = retried k ?req w" by blast
    from h have eqs: "e = env" "t = token" "b = pageID" by simp_all
    from always have "rateLimited (roundTrip env (requests v) ?req)"
      by (simp add: k requests_retried)
    then obtain body where "roundTrip env (requests v) ?req = Response 429 body"
      by (auto simp: rateLimited_def split: HttpOutcome.splits)
    with step ok
    have "fetch env token pageID (sleep (3 * second) (send ?req v)) = Some y"
      by (simp add: eqs Get_NewCache)
    moreover have "sleep (3 * second) (send ?req v) = retried (Suc k) ?req w"
      by (simp add: k retried_def)
    ultimately show False using IH by blast
  qed
qed

lemma fetchPage_forever:
  assumes "\<not> newRequestFails env ''GET'' (pageURL pageID)"
    and "\<forall>i. rateLimited (roundTrip env (requests w @ replicate i (pageRequest token pageID)) (pageRequest token pageID))"
  shows "fetchPage env token pageID w = None"
proof -
  have "retried 0 (pageRequest token pageID) w = w"
    by (simp add: retried_def)
  then have "\<exists>k. w = retried k (pageRequest token pageID) w"
    by (intro exI [of _ 0]) simp
  then have "fetchPage env token pageID w \<noteq> Some y" for y
    using fetchPage_never [OF _ assms, of env token pageID w y]
    by blast
  then show ?thesis by (cases "fetchPage env token pageID w") auto
qed

lemma fetchPageContent_429:
  assumes "\<not> newRequestFails env ''GET'' (contentURL pageID)"
    and "rateLimited (roundTrip env (requests w) (contentRequest token pageID))"
  shows "fetchPageContent env token pageID w =
         fetchPageContent env token pageID (sleep (3 * second) (send (contentRequest token pageID) w))"
  using assms
  by (subst fetchPageContent.simps)
     (simp add: Get_NewCache rateLimited_def split: HttpOutcome.splits)

lemma fetchPageContent_answer:
  assumes "\<not> newRequestFails env ''GET'' (contentURL pageID)"
    and "\<not> rateLimited (roundTrip env (requests w) (contentRequest token pageID))"
  shows "fetchPageContent env token pageID w =
         Some (Return (contentAnswer (roundTrip env (requests w) (contentRequest token pageID)))
                 (send (contentRequest token pageID) w))"
  using assms
  by (subst fetchPageContent.simps)
     (simp add: Get_NewCache rateLimited_def contentAnswer_def
           split: HttpOutcome.splits option.splits)

lemma fetchPageContent_no_request:
  assumes "newRequestFails env ''GET'' (contentURL pageID)"
  shows "fetchPageContent env token pageID w = Some (Return (Inl NewRequestError) w)"
  using assms
  by (subst fetchPageContent.simps) (simp add: Get_NewCache)

lemma fetchPageContent_retried:
  assumes "\<not> newRequestFails env ''GET'' (contentURL pageID)"
    and "\<forall>i<k. rateLimited (roundTrip env (requests w @ replicate i (contentRequest token pageID)) (contentRequest token pageID))"
  shows "fetchPageContent env token pageID w = fetchPageContent env token pageID (retried k (contentRequest token pageID) w)"
  using assms(2)
proof (induction k arbitrary: w)
  case 0
  show ?case by (simp add: retried_def)
next
  case (Suc k)
  let ?req = "contentRequest token pageID"
  let ?w = "sleep (3 * second) (send ?req w)"
  from Suc.prems have "rateLimited (roundTrip env (requests w @ replicate 0 ?req) ?req)"
    by blast
  then have first: "fetchPageContent env token pageID w = fetchPageContent env token pageID ?w"
    using fetchPageContent_429 [OF assms(1)] by simp
  have "\<forall>i<k. rateLimited (roundTrip env (requests ?w @ replicate i ?req) ?req)"
  proof (intro allI impI)
    fix i assume "i < k"
    then have "rateLimited (roundTrip env (requests w @ replicate (Suc i) ?req) ?req)"
      using Suc.prems by auto
    then show "rateLimited (roundTrip env (requests ?w @ replicate i ?req) ?req)"
      by (simp add: sleep_def send_def)
  qed
  from Suc.IH [OF this] first show ?case
    by (simp add: retried_Suc)
qed

lemma fetchPageContent_returns:
  assumes ok: "\<not> newRequestFails env ''GET'' (contentURL pageID)"
    and limited: "\<forall>i<k. rateLimited (roundTrip env (requests w @ replicate i (contentRequest token pageID)) (contentRequest token pageID))"
    and answered: "\<not> rateLimited (roundTrip env (requests w @ replicate k (contentRequest token pageID)) (contentRequest token pageID))"
  shows "fetchPageContent env token pageID w =
         Some (Return (contentAnswer (roundTrip env (requests w @ replicate k (contentRequest token pageID)) (contentRequest token pageID)))
                 (afterRetries k (contentRequest token pageID) w))"
proof -
  let ?req = "contentRequest token pageID"
  have "fetchPageContent env token pageID w = fetchPageContent env token pageID (retried k ?req w)"
    by (rule fetchPageContent_retried [OF ok limited])
  also have "\<dots> = Some (Return (contentAnswer (roundTrip env (requests (retried k ?req w)) ?req))
                       (send ?req (retried k ?req w)))"
    by (rule fetchPageContent_answer [OF ok]) (simp add: requests_retried answered)
  finally show ?thesis
    by (simp add: requests_retried send_retried)
qed

lemma fetchPageContent_never:
  assumes ret: "fetchPageContent e t b v = Some y"
    and ok: "\<not> newRequestFails env ''GET'' (contentURL pageID)"
    and always: "\<forall>i. rateLimited (roundTrip env (requests w @ replicate i (contentRequest token pageID)) (contentRequest token pageID))"
  shows "\<not> (e = env \<and> t = token \<and> b = pageID
         \<and> (\<exists>k. v = retried k (contentRequest token pageID) w))"
proof (rule fetchPageContent.raw_induct
    [where P = "\<lambda>e t b v y. \<not> (e = env \<and> t = token \<and> b = pageID
         \<and> (\<exists>k. v = retried k (contentRequest token pageID) w))", OF _ ret],
    goal_cases)
  case (1 fetch e t b v y)
  note IH = 1(1) and step = 1(2)
  let ?req = "contentRequest token pageID"
  show ?case
  proof
    assume h: "e = env \<and> t = token \<and> b = pageID \<and> (\<exists>k. v = retried k ?req w)"
    then obtain k where k: "v = retried k ?req w" by blast
    from h have eqs: "e = env" "t = token" "b = pageID" by simp_all
    from always have "rateLimited (roundTrip env (requests v) ?req)"
      by (simp add: k requests_retried)
    then obtain body where "roundTrip env (requests v) ?req = Response 429 body"
      by (auto simp: rateLimited_def split: HttpOutcome.splits)
    with step ok
    have "fetch env token pageID (sleep (3 * second) (send ?req v)) = Some y"
      by (simp add: eqs Get_NewCache)
    moreover have "sleep (3 * second) (send ?req v) = retried (Suc k) ?req w"
      by (simp add: k retried_def)
    ultimately show False using IH by blast
  qed
qed

lemma fetchPageContent_forever:
  assumes "\<not> newRequestFails env ''GET'' (contentURL pageID)"
    and "\<forall>i. rateLimited (roundTrip env (requests w @ replicate i (contentRequest token pageID)) (contentRequest token pageID))"
  shows "fetchPageContent env token pageID w = None"
proof -
  have "retried 0 (contentRequest token pageID) w = w"
    by (simp add: retried_def)
  then have "\<exists>k. w = retried k (contentRequest token pageID) w"
    by (intro exI [of _ 0]) simp
  then have "fetchPageContent env token pageID w \<noteq> Some y" for y
    using fetchPageContent_never [OF _ assms, of env token pageID w y]
    by blast
  then show ?thesis by (cases "fetchPageContent env token pageID w") auto
qed

text \<open>
  C3 (as amended). For each of \<open>fetchChildren\<close>, \<open>fetchPagesFromDatabase\<close> and
  \<open>fetchPage\<close>, and for every number \<open>k\<close>: when the first \<open>k\<close> answers are
  responses with status 429 whose body has been read, and the next answer is not such a
  response, the operation has sent the same request \<open>k + 1\<close> times, has slept three
  seconds after each of the \<open>k\<close> rate-limited answers, and returns what the last answer
  gives, so that none of these 429 reaches the caller; when every answer is such a
  response the operation never returns.
\<close>

theorem rate_limit_retried_without_limit:
  fixes env :: Env and w :: World and k :: nat
    and token blockID databaseID pageID cursor :: string
  defines "creq \<equiv> childrenRequest token blockID cursor"
    and "qreq \<equiv> queryRequest token databaseID cursor"
    and "preq \<equiv> pageRequest token pageID"
  shows
  "(\<not> newRequestFails env ''GET'' (childrenURL blockID) \<longrightarrow>
      ((\<forall>i<k. rateLimited (roundTrip env (requests w @ replicate i creq) creq))
       \<and> \<not> rateLimited (roundTrip env (requests w @ replicate k creq) creq)
       \<longrightarrow> fetchChildren env token blockID cursor w =
             Some (Return (childrenAnswer (roundTrip env (requests w @ replicate k creq) creq))
                     (afterRetries k creq w)))
      \<and> ((\<forall>i. rateLimited (roundTrip env (requests w @ replicate i creq) creq))
           \<longrightarrow> fetchChildren env token blockID cursor w = None))
   \<and> (\<not> newRequestFails env ''POST'' (queryURL databaseID) \<longrightarrow>
      ((\<forall>i<k. rateLimited (roundTrip env (requests w @ replicate i qreq) qreq))
       \<and> \<not> rateLimited (roundTrip env (requests w @ replicate k qreq) qreq)
       \<longrightarrow> fetchPagesFromDatabase env token databaseID cursor w =
             Some (Return (queryAnswer (roundTrip env (requests w @ replicate k qreq) qreq))
                     (afterRetries k qreq w)))
      \<and> ((\<forall>i. rateLimited (roundTrip env (requests w @ replicate i qreq) qreq))
           \<longrightarrow> fetchPagesFromDatabase env token databaseID cursor w = None))
   \<and> (\<not> newRequestFails env ''GET'' (pageURL pageID) \<longrightarrow>
      ((\<forall>i<k. rateLimited (roundTrip env (requests w @ replicate i preq) preq))
       \<and> \<not> rateLimited (roundTrip env (requests w @ replicate k preq) preq)
       \<longrightarrow> fetchPage env token pageID w =
             Some (Return (pageAnswer (roundTrip env (requests w @ replicate k preq) preq))
                     (afterRetries k preq w)))
      \<and> ((\<forall>i. rateLimited (roundTrip env (requests w @ replicate i preq) preq))
           \<longrightarrow> fetchPage env token pageID w = None))"
  unfolding creq_def qreq_def preq_def
  using fetchChildren_returns [of env blockID k w token cursor]
    fetchChildren_forever [of env blockID w token cursor]
    fetchPagesFromDatabase_returns [of env databaseID k w token cursor]
    fetchPagesFromDatabase_forever [of env databaseID w token cursor]
    fetchPage_returns [of env pageID k w token]
    fetchPage_forever [of env pageID w token]
  by blast


theorem rate_limit_retried_without_limit_witness:
  "fetchChildren (envWith twiceLimited) ''secret'' ''b1'' ''c7'' world0 =
     Some (Return (Inr \<lparr>children_Results = [], children_NextCursor = [], children_HasMore = False\<rparr>)
       \<lparr>clock = 6 * second,
        requests = replicate 3 (childrenRequest ''secret'' ''b1'' ''c7''),
        sleeps = [3 * second, 3 * second], fsOps = [], slugRegistered = []\<rparr>)
   \<and> fetchPage (envWith alwaysLimited) ''secret'' ''p1'' world0 = None"
proof -
  have "\<forall>i<2. rateLimited (roundTrip (envWith twiceLimited)
            (requests world0 @ replicate i (childrenRequest ''secret'' ''b1'' ''c7''))
            (childrenRequest ''secret'' ''b1'' ''c7''))"
    by (simp add: envWith_def twiceLimited_def rateLimited_def world0_def)
  moreover have "\<not> rateLimited (roundTrip (envWith twiceLimited)
            (requests world0 @ replicate 2 (childrenRequest ''secret'' ''b1'' ''c7''))
            (childrenRequest ''secret'' ''b1'' ''c7''))"
    by (simp add: envWith_def twiceLimited_def rateLimited_def world0_def)
  moreover have "\<forall>i. rateLimited (roundTrip (envWith alwaysLimited)
            (requests world0 @ replicate i (pageRequest ''secret'' ''p1''))
            (pageRequest ''secret'' ''p1''))"
    by (simp add: envWith_def alwaysLimited_def rateLimited_def)
  moreover have "\<not> newRequestFails (envWith twiceLimited) ''GET'' (childrenURL ''b1'')"
    "\<not> newRequestFails (envWith alwaysLimited) ''GET'' (pageURL ''p1'')"
    by (simp_all add: envWith_def)
  ultimately have "fetchChildren (envWith twiceLimited) ''secret'' ''b1'' ''c7'' world0 =
      Some (Return (childrenAnswer (roundTrip (envWith twiceLimited)
               (requests world0 @ replicate 2 (childrenRequest ''secret'' ''b1'' ''c7''))
               (childrenRequest ''secret'' ''b1'' ''c7'')))
             (afterRetries 2 (childrenRequest ''secret'' ''b1'' ''c7'') world0))"
    and "fetchPage (envWith alwaysLimited) ''secret'' ''p1'' world0 = None"
    using rate_limit_retried_without_limit
      [where env = "envWith twiceLimited" and blockID = "''b1''" and k = 2 and w = world0
         and token = "''secret''" and cursor = "''c7''"]
      rate_limit_retried_without_limit
      [where env = "envWith alwaysLimited" and w = world0 and pageID = "''p1''"
         and token = "''secret''"]
    by blast+
  then show ?thesis
    by (simp add: envWith_def twiceLimited_def childrenAnswer_def emptyBody_def
        afterRetries_def world0_def numeral_3_eq_3 numeral_2_eq_2)
qed


text \<open>
  The claim as it was stated is about every response with status 429. The body is read
  before the status is looked at, so a 429 whose body cannot be read is returned as the
  error of the read, after one request and with no sleep.
\<close>

theorem unreadable_429_surfaced_counterexample:
  "fetchChildren (envWith limitedUnreadable) ''secret'' ''b1'' [] world0 =
     Some (Return (Inl ReadAllError)
       \<lparr>clock = 0, requests = [childrenRequest ''secret'' ''b1'' []], sleeps = [], fsOps = [],
        slugRegistered = []\<rparr>)
   \<and> roundTrip (envWith limitedUnreadable) [] (childrenRequest ''secret'' ''b1'' [])
       = ReadAllFailed 429"
  by (subst fetchChildren.simps)
     (simp add: envWith_def limitedUnreadable_def world0_def send_def Get_NewCache)

text \<open>
  C4 (as amended). For each of the three fetch operations: a request that cannot be
  built, a failed exchange, a failed read of the body and a body that does not decode
  are returned to the caller as an error after one attempt at most, with no sleep and
  no retry. The status is compared with 429 only: whatever other status a response
  has, it is an error exactly when its body does not decode, and is returned as data
  when it does.
\<close>

theorem other_failures_surface_at_once:
  fixes env :: Env and w :: World
    and token blockID databaseID pageID cursor :: string
  defines "creq \<equiv> childrenRequest token blockID cursor"
    and "qreq \<equiv> queryRequest token databaseID cursor"
    and "preq \<equiv> pageRequest token pageID"
  shows
  "(newRequestFails env ''GET'' (childrenURL blockID) \<longrightarrow>
      fetchChildren env token blockID cursor w = Some (Return (Inl NewRequestError) w))
   \<and> (\<not> newRequestFails env ''GET'' (childrenURL blockID) \<longrightarrow>
      (roundTrip env (requests w) creq = DoFailed \<longrightarrow>
         fetchChildren env token blockID cursor w = Some (Return (Inl DoError) (send creq w)))
      \<and> (\<forall>status. roundTrip env (requests w) creq = ReadAllFailed status \<longrightarrow>
         fetchChildren env token blockID cursor w = Some (Return (Inl ReadAllError) (send creq w)))
      \<and> (\<forall>status body. roundTrip env (requests w) creq = Response status body \<and> status \<noteq> 429 \<longrightarrow>
         fetchChildren env token blockID cursor w =
           Some (Return (case asChildren body of None \<Rightarrow> Inl UnmarshalError | Some data \<Rightarrow> Inr data)
                   (send creq w))))
   \<and> (newRequestFails env ''POST'' (queryURL databaseID) \<longrightarrow>
      fetchPagesFromDatabase env token databaseID cursor w = Some (Return (Inl NewRequestError) w))
   \<and> (\<not> newRequestFails env ''POST'' (queryURL databaseID) \<longrightarrow>
      (roundTrip env (requests w) qreq = DoFailed \<longrightarrow>
         fetchPagesFromDatabase env token databaseID cursor w =
           Some (Return (Inl DoError) (send qreq w)))
      \<and> (\<forall>status. roundTrip env (requests w) qreq = ReadAllFailed status \<longrightarrow>
         fetchPagesFromDatabase env token databaseID cursor w =
           Some (Return (Inl ReadAllError) (send qreq w)))
      \<and> (\<forall>status body. roundTrip env (requests w) qreq = Response status body \<and> status \<noteq> 429 \<longrightarrow>
         fetchPagesFromDatabase env token databaseID cursor w =
           Some (Return (case asQuery body of None \<Rightarrow> Inl UnmarshalError | Some data \<Rightarrow> Inr data)
                   (send qreq w))))
   \<and> (newRequestFails env ''GET'' (pageURL pageID) \<longrightarrow>
      fetchPage env token pageID w = Some (Return (Inl NewRequestError) w))
   \<and> (\<not> newRequestFails env ''GET'' (pageURL pageID) \<longrightarrow>
      (roundTrip env (requests w) preq = DoFailed \<longrightarrow>
         fetchPage env token pageID w = Some (Return (Inl DoError) (send preq w)))
      \<and> (\<forall>status. roundTrip env (requests w) preq = ReadAllFailed status \<longrightarrow>
         fetchPage env token pageID w = Some (Return (Inl ReadAllError) (send preq w)))
      \<and> (\<forall>status body. roundTrip env (requests w) preq = Response status body \<and> status \<noteq> 429 \<longrightarrow>
         fetchPage env token pageID w =
           Some (Return (case asPage body of None \<Rightarrow> Inl UnmarshalError | Some data \<Rightarrow> Inr data)
                   (send preq w))))"
proof -
  have c: "\<not> newRequestFails env ''GET'' (childrenURL blockID) \<Longrightarrow>
      \<not> rateLimited (roundTrip env (requests w) creq) \<Longrightarrow>
      fetchChildren env token blockID cursor w =
        Some (Return (childrenAnswer (roundTrip env (requests w) creq)) (send creq w))"
    unfolding creq_def by (rule fetchChildren_answer)
  have q: "\<not> newRequestFails env ''POST'' (queryURL databaseID) \<Longrightarrow>
      \<not> rateLimited (roundTrip env (requests w) qreq) \<Longrightarrow>
      fetchPagesFromDatabase env token databaseID cursor w =
        Some (Return (queryAnswer (roundTrip env (requests w) qreq)) (send qreq w))"
    unfolding qreq_def by (rule fetchPagesFromDatabase_answer)
  have p: "\<not> newRequestFails env ''GET'' (pageURL pageID) \<Longrightarrow>
      \<not> rateLimited (roundTrip env (requests w) preq) \<Longrightarrow>
      fetchPage env token pageID w =
        Some (Return (pageAnswer (roundTrip env (requests w) preq)) (send preq w))"
    unfolding preq_def by (rule fetchPage_answer)
  show ?thesis
    using c q p
    by (simp add: fetchChildren_no_request fetchPagesFromDatabase_no_request
        fetchPage_no_request rateLimited_def childrenAnswer_def queryAnswer_def pageAnswer_def)
qed

theorem other_failures_surface_at_once_witness:
  "fetchPagesFromDatabase (envWith (\<lambda>sent req. Response 500 badBody)) ''secret'' ''db'' [] world0 =
     Some (Return (Inl UnmarshalError)
       \<lparr>clock = 0, requests = [queryRequest ''secret'' ''db'' []], sleeps = [], fsOps = [],
        slugRegistered = []\<rparr>)
   \<and> fetchPage (envWith (\<lambda>sent req. DoFailed)) ''secret'' ''p1'' world0 =
     Some (Return (Inl DoError)
       \<lparr>clock = 0, requests = [pageRequest ''secret'' ''p1''], sleeps = [], fsOps = [],
        slugRegistered = []\<rparr>)"
  using other_failures_surface_at_once
      [where env = "envWith (\<lambda>sent req. Response 500 badBody)" and w = world0
         and databaseID = "''db''" and token = "''secret''" and cursor = "[]"]
    other_failures_surface_at_once
      [where env = "envWith (\<lambda>sent req. DoFailed)" and w = world0
         and pageID = "''p1''" and token = "''secret''"]
  by (simp add: envWith_def world0_def badBody_def send_def)

text \<open>
  The claim as it was stated makes every status outside 2xx an error. A 404 whose body
  is a JSON object is returned as data, with no error.
\<close>

theorem error_status_returned_as_success_counterexample:
  "fetchChildren (envWith notFound) ''secret'' ''b1'' [] world0 =
     Some (Return (Inr \<lparr>children_Results = [], children_NextCursor = [], children_HasMore = False\<rparr>)
       \<lparr>clock = 0, requests = [childrenRequest ''secret'' ''b1'' []], sleeps = [], fsOps = [],
        slugRegistered = []\<rparr>)
   \<and> roundTrip (envWith notFound) [] (childrenRequest ''secret'' ''b1'' []) = Response 404 emptyBody"
  by (subst fetchChildren.simps)
     (simp add: envWith_def notFound_def world0_def emptyBody_def send_def Get_NewCache)

section \<open>Properties of the property extractors\<close>

lemma firstString_ok:
  "firstHasString a key \<Longrightarrow> \<exists>s. firstString a key = Inr s"
  by (auto simp: firstHasString_def firstString_def bindP_def index0_def assertMap_def
      assertString_def split: list.splits json.splits)

lemma relationIDs_ok:
  "list_all (\<lambda>item. firstHasString [item] ''id'') a \<Longrightarrow> \<exists>ids. relationIDs a acc = Inr ids"
proof (induction a arbitrary: acc)
  case Nil
  show ?case by simp
next
  case (Cons item a)
  then show ?case
    by (auto simp: firstHasString_def bindP_def assertMap_def assertString_def
        split: json.splits)
qed

lemma title_part:
  assumes "firstStringShaped ''title'' ''plain_text'' (index_map ps ''Name'')"
    and "\<not> (case index_map ps ''Name'' of
              JObject p \<Rightarrow> index_map p ''title'' = JArray []
            | _ \<Rightarrow> False)"
  shows "\<exists>t. (case index_map ps ''Name'' of
              JObject titleProp \<Rightarrow>
                bindP (assertArray (index_map titleProp ''title''))
                  (\<lambda>a. firstString a ''plain_text'')
            | _ \<Rightarrow> Inr []) = Inr t \<and> (map_of ps ''Name'' = None \<longrightarrow> t = [])"
  using assms firstString_ok [of _ "''plain_text''"]
  by (cases "index_map ps ''Name''")
     (fastforce simp: firstStringShaped_def bindP_def assertArray_def index_map_def
      split: json.splits option.splits)+

lemma slug_part:
  assumes "firstStringShaped ''rich_text'' ''plain_text'' (index_map ps ''Slug'')"
  shows "\<exists>s. (case index_map ps ''Slug'' of
              JObject slugProp \<Rightarrow>
                bindP (assertArray (index_map slugProp ''rich_text''))
                  (\<lambda>a. bindP (if length a > 0 then firstString a ''plain_text'' else Inr title)
                  (\<lambda>slug. Inr (replaceAll slug '' '' ''-'')))
            | _ \<Rightarrow> Inr []) = Inr s \<and> (map_of ps ''Slug'' = None \<longrightarrow> s = [])"
  using assms firstString_ok [of _ "''plain_text''"]
  by (cases "index_map ps ''Slug''")
     (fastforce simp: firstStringShaped_def bindP_def assertArray_def index_map_def
      split: json.splits option.splits)+

lemma first_part:
  assumes "firstStringShaped listKey key (index_map ps name)"
  shows "\<exists>s. (case index_map ps name of
              JObject prop \<Rightarrow>
                bindP (assertArray (index_map prop listKey))
                  (\<lambda>a. if length a > 0 then firstString a key else Inr [])
            | _ \<Rightarrow> Inr []) = Inr s \<and> (map_of ps name = None \<longrightarrow> s = [])"
  using assms firstString_ok [of _ key]
  by (cases "index_map ps name")
     (fastforce simp: firstStringShaped_def bindP_def assertArray_def index_map_def
      split: json.splits option.splits)+

lemma subitems_part:
  assumes "subItemsShaped (index_map ps ''Sub-Items'')"
  shows "\<exists>ids. (case index_map ps ''Sub-Items'' of
              JObject subItems \<Rightarrow>
                bindP (assertArray (index_map subItems ''relation''))
                  (\<lambda>a. if length a > 0 then relationIDs a [] else Inr [])
            | _ \<Rightarrow> Inr []) = Inr ids \<and> (map_of ps ''Sub-Items'' = None \<longrightarrow> ids = [])"
  using assms relationIDs_ok [of _ "[]"]
  by (cases "index_map ps ''Sub-Items''")
     (fastforce simp: subItemsShaped_def bindP_def assertArray_def index_map_def
      split: json.splits option.splits)+

text \<open>
  C9 (as amended). For every page whose named properties hold, where they are present
  as objects, values of the types that the extractors assert, \<open>extractPageProperties\<close>
  and \<open>extractPageRelations\<close> return without a panic, and each of "Name", "Slug",
  "Keywords", "Parent" and "Sub-Items" that is missing from the property map gives the
  empty string or the empty list for its field. A page whose "Name" is present with an
  empty title list is left aside.
\<close>

theorem missing_properties_default:
  assumes "wellTyped page" and "\<not> emptyTitle page"
  shows "(\<exists>title slug keywords.
            extractPageProperties page = Inr (title, slug, keywords)
            \<and> (map_of (Properties page) ''Name'' = None \<longrightarrow> title = [])
            \<and> (map_of (Properties page) ''Slug'' = None \<longrightarrow> slug = [])
            \<and> (map_of (Properties page) ''Keywords'' = None \<longrightarrow> keywords = []))
       \<and> (\<exists>parentId childPages.
            extractPageRelations page = Inr (parentId, childPages)
            \<and> (map_of (Properties page) ''Parent'' = None \<longrightarrow> parentId = [])
            \<and> (map_of (Properties page) ''Sub-Items'' = None \<longrightarrow> childPages = []))"
proof -
  from assms obtain t where
    t: "(case index_map (Properties page) ''Name'' of
              JObject titleProp \<Rightarrow>
                bindP (assertArray (index_map titleProp ''title''))
                  (\<lambda>a. firstString a ''plain_text'')
            | _ \<Rightarrow> Inr []) = Inr t" "map_of (Properties page) ''Name'' = None \<longrightarrow> t = []"
    using title_part [of "Properties page"] by (auto simp: wellTyped_def emptyTitle_def)
  from assms obtain s where
    s: "(case index_map (Properties page) ''Slug'' of
              JObject slugProp \<Rightarrow>
                bindP (assertArray (index_map slugProp ''rich_text''))
                  (\<lambda>a. bindP (if length a > 0 then firstString a ''plain_text'' else Inr t)
                  (\<lambda>slug. Inr (replaceAll slug '' '' ''-'')))
            | _ \<Rightarrow> Inr []) = Inr s" "map_of (Properties page) ''Slug'' = None \<longrightarrow> s = []"
    using slug_part [of "Properties page" t] by (auto simp: wellTyped_def)
  from assms obtain k where
    k: "(case index_map (Properties page) ''Keywords'' of
              JObject prop \<Rightarrow>
                bindP (assertArray (index_map prop ''rich_text''))
                  (\<lambda>a. if length a > 0 then firstString a ''plain_text'' else Inr [])
            | _ \<Rightarrow> Inr []) = Inr k" "map_of (Properties page) ''Keywords'' = None \<longrightarrow> k = []"
    using first_part [of "''rich_text''" "''plain_text''" "Properties page" "''Keywords''"]
    by (auto simp: wellTyped_def)
  from assms obtain p where
    p: "(case index_map (Properties page) ''Parent'' of
              JObject prop \<Rightarrow>
                bindP (assertArray (index_map prop ''relation''))
                  (\<lambda>a. if length a > 0 then firstString a ''id'' else Inr [])
            | _ \<Rightarrow> Inr []) = Inr p" "map_of (Properties page) ''Parent'' = None \<longrightarrow> p = []"
    using first_part [of "''relation''" "''id''" "Properties page" "''Parent''"]
    by (auto simp: wellTyped_def)
  from assms obtain c where
    c: "(case index_map (Properties page) ''Sub-Items'' of
              JObject subItems \<Rightarrow>
                bindP (assertArray (index_map subItems ''relation''))
                  (\<lambda>a. if length a > 0 then relationIDs a [] else Inr [])
            | _ \<Rightarrow> Inr []) = Inr c" "map_of (Properties page) ''Sub-Items'' = None \<longrightarrow> c = []"
    using subitems_part [of "Properties page"] by (auto simp: wellTyped_def)
  have "extractPageProperties page = Inr (t, s, k)"
    unfolding extractPageProperties_def t(1) by (simp add: bindP_def s(1) k(1))
  moreover have "extractPageRelations page = Inr (p, c)"
    unfolding extractPageRelations_def p(1) by (simp add: bindP_def c(1))
  ultimately show ?thesis
    using t(2) s(2) k(2) p(2) c(2) by simp
qed

theorem missing_properties_default_witness:
  "wellTyped titledPage \<and> \<not> emptyTitle titledPage
   \<and> extractPageProperties titledPage = Inr (''Intro'', [], [])
   \<and> extractPageRelations titledPage = Inr ([], [])"
proof -
  have ws: "wellTyped titledPage" "\<not> emptyTitle titledPage"
    by (simp_all add: wellTyped_def emptyTitle_def titledPage_def firstStringShaped_def
        subItemsShaped_def firstHasString_def index_map_def)
  from missing_properties_default [OF ws] show ?thesis
    using ws
    by (simp add: titledPage_def extractPageProperties_def extractPageRelations_def
        bindP_def index_map_def assertArray_def firstString_def index0_def assertMap_def
        assertString_def)
qed

text \<open>
  The claim as it was stated lets no page with a missing property make the extractors
  fail. Inside a property that is present every type assertion is of the panicking
  form: a page that has none of the other four properties, and whose "Slug" is of
  another property type and has no \<open>rich_text\<close> list, makes
  \<open>extractPageProperties\<close> panic on the assertion of the list.
\<close>

theorem mistyped_property_counterexample:
  "extractPageProperties selectSlugPage = Inl TypeAssertion
   \<and> map_of (Properties selectSlugPage) ''Name'' = None
   \<and> map_of (Properties selectSlugPage) ''Keywords'' = None
   \<and> map_of (Properties selectSlugPage) ''Parent'' = None
   \<and> map_of (Properties selectSlugPage) ''Sub-Items'' = None"
  by (simp add: selectSlugPage_def extractPageProperties_def bindP_def index_map_def
      assertArray_def)

text \<open>
  The title list is indexed at \<open>[0]\<close> without the test of the length that the
  other four lists have: a page with an empty title list makes
  \<open>extractPageProperties\<close> panic there, while an empty list under "Slug" gives the
  default.
\<close>

lemma untitled_page_panics:
  "extractPageProperties untitledPage = Inl IndexOutOfRange
   \<and> extractPageProperties
         \<lparr>page_ID = ''p1'', Properties = [(''Slug'', JObject [(''rich_text'', JArray [])])]\<rparr>
       = Inr ([], [], [])"
  by (simp add: untitledPage_def extractPageProperties_def bindP_def index_map_def
      assertArray_def firstString_def index0_def)

section \<open>Properties of the block and table renderers\<close>

lemma andThen_ret [simp]: "andThen (ret x w) f = f x w"
  by (simp add: andThen_def ret_def)

lemma andThen_simps [simp]:
  "andThen (Some (Return x w)) f = f x w"
  "andThen (Some (Panicked p w)) f = Some (Panicked p w)"
  "andThen (Some (Fatal w)) f = Some (Fatal w)"
  "andThen None f = None"
  by (simp_all add: andThen_def)

text \<open>
  C5. A block whose type is not rendered must leave a placeholder that names the type.
  The renderer does so for a type it does not know, such as \<open>column_list\<close>; for the
  type \<open>unsupported\<close> itself it writes nothing.
\<close>

theorem unsupported_block_is_dropped:
  "blocksToMarkdown (Suc 0) (envWith notFound) ''secret'' [bareBlock ''unsupported''] False world0
     = Some (Return [] world0)
   \<and> blocksToMarkdown (Suc 0) (envWith notFound) ''secret'' [bareBlock ''column_list''] False world0
     = Some (Return (''[Unsupported block type: column_list]  '' @ newline) world0)"
  by (simp add: blockSwitch_def bareBlock_def ret_def)

lemma blockSwitch_unsupported:
  "block_Type block = ''unsupported'' \<Longrightarrow> blockSwitch env token block isChildren w = ret ([], False) w"
  by (simp add: blockSwitch_def)

lemma replaceAll_single_set:
  "c \<notin> set new \<Longrightarrow> c \<notin> set (replaceAll s [c] new)"
  unfolding replaceAll_single by (induction s) auto

lemma replaceAll_single_append:
  "replaceAll (s @ t) [c] new = replaceAll s [c] new @ replaceAll t [c] new"
  by (simp add: replaceAll_single)

lemma newline_notin_formatBlockHTML: "CHR 0x0A \<notin> set (formatBlockHTML rt)"
  using replaceAll_single_set [of "CHR 0x0A" "''<br />''" "replaceAll (rt_PlainText rt) middot ''-''"]
  by (simp add: formatBlockHTML_def newline_def Let_def)

lemma cellRunHTML_asRun: "cellRunHTML rt = formatBlockHTML (asRun rt)"
  by (simp add: cellRunHTML_def formatBlockHTML_def asRun_def)

lemma trimSuffix_no_newline:
  "CHR 0x0A \<notin> set s \<Longrightarrow> trimSuffix s newline = s"
  by (auto simp: trimSuffix_def newline_def suffix_def)

lemma andThen_assoc:
  "andThen (andThen m f) g = andThen m (\<lambda>x w. andThen (f x w) g)"
  by (simp add: andThen_def split: option.splits Outcome.splits)

lemma renderTableCellRuns_resolve:
  "renderTableCellRuns env cell acc w =
   andThen (resolveRuns env cell w) (\<lambda>runs w. ret (acc @ concat (map cellRunHTML runs)) w)"
proof (induction cell arbitrary: acc w)
  case Nil
  show ?case by simp
next
  case (Cons rt rest)
  show ?case
  proof (cases "cell_Type rt = ''mention''")
    case False
    then show ?thesis
      by (simp add: Cons.IH andThen_assoc)
  next
    case True
    show ?thesis
    proof (cases "cell_Mention rt")
      case None
      with True show ?thesis by (simp add: liftP_def deref_def)
    next
      case (Some m)
      show ?thesis
      proof (cases "fetchPage env (APIToken env) (mention_PageID m) w")
        case None
        with True Some show ?thesis by (simp add: liftP_def deref_def)
      next
        case (Some out)
        with True \<open>cell_Mention rt = Some m\<close> show ?thesis
          by (cases out)
             (auto simp: liftP_def deref_def Cons.IH andThen_assoc
                   split: sum.splits)
      qed
    qed
  qed
qed


lemma newline_notin_cells: "CHR 0x0A \<notin> set (concat (map cellRunHTML runs))"
  by (induction runs) (simp_all add: cellRunHTML_asRun newline_notin_formatBlockHTML)

lemma renderTableCell_resolve:
  "renderTableCell env cell w =
   andThen (resolveRuns env cell w) (\<lambda>runs w. ret (cellHTML runs) w)"
proof -
  have "trimSuffix (concat (map cellRunHTML runs)) newline = concat (map cellRunHTML runs)"
    for runs
    by (rule trimSuffix_no_newline [OF newline_notin_cells])
  moreover have "cellHTML runs = replaceAll (concat (map cellRunHTML runs)) ''|'' ''&#124;''"
    for runs
    by (simp add: cellHTML_def cellRunHTML_asRun [abs_def])
  ultimately show ?thesis
    by (simp add: renderTableCell_def renderTableCellRuns_resolve andThen_assoc)
qed

lemma renderTableCells_resolve:
  "renderTableCells env i cells w =
   andThen (resolveCells env cells w) (\<lambda>resolved w.
     ret (concat (map (\<lambda>c. if i = 0 then ''<th>'' @ cellHTML c @ ''</th>''
                             else ''<td>'' @ cellHTML c @ ''</td>'') resolved)) w)"
  by (induction cells arbitrary: w) (simp_all add: renderTableCell_resolve andThen_assoc)

lemma renderTableRows_other:
  "renderTableRows env (Suc i) rows w =
   andThen (resolveRows env rows w) (\<lambda>resolved w. ret (concat (map (rowHTML ''td'') resolved)) w)"
proof (induction rows arbitrary: i w)
  case Nil
  show ?case by simp
next
  case (Cons row rows)
  show ?case
    by (simp add: renderTableCells_resolve Cons.IH andThen_assoc rowHTML_def openTag_def
        closeTag_def)
qed

lemma renderTable_resolve:
  assumes "table \<noteq> None" and "rows \<noteq> []"
  shows "renderTable env table rows w =
         andThen (resolveRows env rows w) (\<lambda>resolved w. ret (tableHTML resolved) w)"
proof -
  from assms(2) obtain row rest where rows: "rows = row # rest"
    by (cases rows) auto
  from assms(1) obtain t where "table = Some t" by blast
  then have "renderTable env table rows w =
      andThen (renderTableRows env 0 rows w) (\<lambda>body w. ret (''<table>'' @ body @ ''</table>'') w)"
    by (simp add: renderTable_def rows)
  then show ?thesis
    by (simp add: rows renderTableCells_resolve renderTableRows_other
        andThen_assoc tableHTML_def rowHTML_def openTag_def closeTag_def)
qed

lemma resolveRuns_mentionFree:
  "list_all (\<lambda>rt. cell_Type rt \<noteq> ''mention'') cell \<Longrightarrow> resolveRuns env cell w = ret cell w"
  by (induction cell) simp_all

lemma resolveCells_mentionFree:
  "list_all (list_all (\<lambda>rt. cell_Type rt \<noteq> ''mention'')) cells \<Longrightarrow>
   resolveCells env cells w = ret cells w"
  by (induction cells) (simp_all add: resolveRuns_mentionFree)

lemma resolveRows_mentionFree:
  "mentionFree rows \<Longrightarrow> resolveRows env rows w = ret (map Cells rows) w"
  by (induction rows) (simp_all add: mentionFree_def resolveCells_mentionFree)

lemma bar_notin_cellHTML: "CHR ''|'' \<notin> set (cellHTML runs)"
  unfolding cellHTML_def by (rule replaceAll_single_set) simp


text \<open>
  C8 (as amended). For every table whose table payload is present and every non-empty
  row list, \<open>renderTable\<close> resolves the mentions of the cells and returns the rows
  inside \<open>table\<close> tags, each row inside \<open>tr\<close> tags, each cell of the first row inside
  \<open>th\<close> tags and each cell of every other row inside \<open>td\<close> tags; without mentions
  this is the table of the rows as they are. The text of a cell is made of its runs,
  each styled by the rule of \<open>formatBlockHTML\<close>, and no vertical bar is left in it:
  each has become its entity. Without a table payload \<open>renderTable\<close> returns the
  empty string, whatever the rows.
\<close>

theorem renderTable_rows:
  "(table \<noteq> None \<and> rows \<noteq> [] \<longrightarrow>
      renderTable env table rows w =
        andThen (resolveRows env rows w) (\<lambda>resolved w. ret (tableHTML resolved) w))
   \<and> (table \<noteq> None \<and> rows \<noteq> [] \<and> mentionFree rows \<longrightarrow>
      renderTable env table rows w = ret (tableHTML (map Cells rows)) w)
   \<and> cellRunHTML rt = formatBlockHTML (asRun rt)
   \<and> CHR ''|'' \<notin> set (cellHTML runs)
   \<and> renderTable env None rows w = ret [] w"
proof -
  have "renderTable env None rows w = ret [] w"
    by (simp add: renderTable_def)
  then show ?thesis
    by (simp add: renderTable_resolve resolveRows_mentionFree cellRunHTML_asRun
        bar_notin_cellHTML)
qed

theorem renderTable_rows_witness:
  "renderTable (envWith notFound) (Some exampleTable) exampleRows world0 =
     Some (Return
       ''<table><tr><th>a</th><th>b&#124;c</th></tr><tr><td>1</td><td>2</td></tr></table>''
       world0)"
proof -
  have "mentionFree exampleRows"
    by (simp add: mentionFree_def exampleRows_def plainCell_def)
  moreover have "exampleRows \<noteq> []"
    by (simp add: exampleRows_def)
  ultimately have "renderTable (envWith notFound) (Some exampleTable) exampleRows world0 =
      ret (tableHTML (map Cells exampleRows)) world0"
    using renderTable_rows
      [where table = "Some exampleTable" and rows = exampleRows and env = "envWith notFound"
         and w = world0 and runs = "[]" and rt = "hd (plainCell [])"]
    by blast
  then show ?thesis
    by (simp add: ret_def tableHTML_def rowHTML_def cellHTML_def exampleRows_def plainCell_def
        asRun_def formatBlockHTML_def openTag_def closeTag_def middot_def newline_def)
qed

text \<open>
  The claim as it was stated is about every non-empty row list. Without a table
  payload, which is how the \<open>table_row\<close> case of the block renderer calls it,
  \<open>renderTable\<close> returns the empty string.
\<close>

theorem renderTable_without_table_counterexample:
  "renderTable (envWith notFound) None exampleRows world0 = Some (Return [] world0)
   \<and> exampleRows \<noteq> []"
  by (simp add: renderTable_def exampleRows_def ret_def)

section \<open>Properties of the tree exporter\<close>

text \<open>
  C10. For every child-page block without children that the traversal meets, the
  step of the loop changes nothing: no request is sent, nothing is written or made,
  the traversal does not call itself, and the loop goes on with the next result.
\<close>

theorem childless_child_page_skipped:
  "block_Type block = ''child_page'' \<and> \<not> HasChildren block \<longrightarrow>
     processResults recurse depth env token outputDir (block # blocks) index w =
       processResults recurse depth env token outputDir blocks (Suc index) w
     \<and> processResults recurse depth env token outputDir [block] index w = ret () w"
  by simp

theorem childless_child_page_skipped_witness:
  "processResults (\<lambda>blockID outputDir w. None) (Suc 0) (envWith notFound) ''secret'' ''./output''
     [bareBlock ''child_page''] 0 world0 = Some (Return () world0)
   \<and> processBlocks (Suc 0) (envWith childPageListing) ''secret'' ''root'' ''./output'' world0 =
       Some (Return ()
         \<lparr>clock = 1 * second, requests = [childrenRequest ''secret'' ''root'' []],
          sleeps = [1 * second], fsOps = [], slugRegistered = []\<rparr>)"
proof -
  have "block_Type (bareBlock ''child_page'') = ''child_page''"
    "\<not> HasChildren (bareBlock ''child_page'')"
    by (simp_all add: bareBlock_def)
  then have step: "processResults recurse depth env token outputDir [bareBlock ''child_page''] index w
      = ret () w" for recurse depth env token outputDir index w
    using childless_child_page_skipped [of "bareBlock ''child_page''"] by blast
  have listing: "fetchChildren (envWith childPageListing) ''secret'' ''root'' [] world0 =
      Some (Return (Inr \<lparr>children_Results = [bareBlock ''child_page''],
                            children_NextCursor = [], children_HasMore = False\<rparr>)
              (send (childrenRequest ''secret'' ''root'' []) world0))"
    by (subst fetchChildren.simps)
       (simp add: envWith_def childPageListing_def world0_def Get_NewCache)
  show ?thesis
    by (simp add: step processBlocks_def listing del: processResults.simps)
       (simp add: ret_def send_def sleep_def world0_def)
qed

lemma keepsSlugs_ret: "slugRegistered w' = slugRegistered w \<Longrightarrow> keepsSlugs (ret x w') w"
  by (simp add: keepsSlugs_def ret_def)

lemma keepsSlugs_liftP: "keepsSlugs (liftP r w) w"
  by (simp add: keepsSlugs_def liftP_def split: sum.splits)

lemma keepsSlugs_andThen:
  assumes "keepsSlugs m w"
    and "\<And>x w1. m = Some (Return x w1) \<Longrightarrow> keepsSlugs (f x w1) w1"
  shows "keepsSlugs (andThen m f) w"
proof (cases m)
  case None
  then show ?thesis by (simp add: keepsSlugs_def andThen_def)
next
  case (Some out)
  show ?thesis
  proof (cases out)
    case (Return x w1)
    with Some assms(1) have "slugRegistered w1 = slugRegistered w"
      by (simp add: keepsSlugs_def)
    moreover from Some Return assms(2) have "keepsSlugs (f x w1) w1"
      by simp
    ultimately show ?thesis
      using Some Return by (simp add: keepsSlugs_def andThen_def)
  next
    case (Panicked p w1)
    with Some show ?thesis by (simp add: keepsSlugs_def andThen_def)
  next
    case (Fatal w1)
    with Some show ?thesis by (simp add: keepsSlugs_def andThen_def)
  qed
qed

lemma keepsSlugs_None: "keepsSlugs None w"
  by (simp add: keepsSlugs_def)



lemma keepsSlugs_fetchChildren: "keepsSlugs (fetchChildren env token blockID cursor w) w"
proof -
  have "\<forall>x w'. y = Return x w' \<longrightarrow> slugRegistered w' = slugRegistered w"
    if ret: "fetchChildren env token blockID cursor w = Some y" for y
  proof (rule fetchChildren.raw_induct
      [where P = "\<lambda>e t b c v y. \<forall>x w'. y = Return x w' \<longrightarrow> slugRegistered w' = slugRegistered v",
        OF _ ret], goal_cases)
    case (1 fetch e t b c v y)
    note IH = 1(1) and step = 1(2)
    show ?case
    proof (cases "newRequestFails e ''GET'' (childrenURL b)")
      case True
      with step show ?thesis
        by (auto simp: Get_NewCache)
    next
      case False
      show ?thesis
      proof (cases "roundTrip e (requests v) (childrenRequest t b c)")
        case DoFailed
        with step False show ?thesis
          by (auto simp: Get_NewCache send_def)
      next
        case (ReadAllFailed status)
        with step False show ?thesis
          by (auto simp: Get_NewCache send_def)
      next
        case (Response status body)
        show ?thesis
        proof (cases "status = 429")
          case True
          with step False Response
          have "fetch e t b c (sleep (3 * second) (send (childrenRequest t b c) v)) = Some y"
            by (simp add: Get_NewCache)
          from IH [OF this] show ?thesis
            by (simp add: sleep_def send_def)
        next
          case not429: False
          with step False Response show ?thesis
            by (auto simp: Get_NewCache send_def Let_def split: option.splits)
        qed
      qed
    qed
  qed
  then show ?thesis
    unfolding keepsSlugs_def by blast
qed

lemma keepsSlugs_fetchPage: "keepsSlugs (fetchPage env token pageID w) w"
proof -
  have "\<forall>x w'. y = Return x w' \<longrightarrow> slugRegistered w' = slugRegistered w"
    if ret: "fetchPage env token pageID w = Some y" for y
  proof (rule fetchPage.raw_induct
      [where P = "\<lambda>e t b v y. \<forall>x w'. y = Return x w' \<longrightarrow> slugRegistered w' = slugRegistered v",
        OF _ ret], goal_cases)
    case (1 fetch e t b v y)
    note IH = 1(1) and step = 1(2)
    show ?case
    proof (cases "newRequestFails e ''GET'' (pageURL b)")
      case True
      with step show ?thesis
        by (auto simp: Get_NewCache)
    next
      case False
      show ?thesis
      proof (cases "roundTrip e (requests v) (pageRequest t b)")
        case DoFailed
        with step False show ?thesis
          by (auto simp: Get_NewCache send_def)
      next
        case (ReadAllFailed status)
        with step False show ?thesis
          by (auto simp: Get_NewCache send_def)
      next
        case (Response status body)
        show ?thesis
        proof (cases "status = 429")
          case True
          with step False Response
          have "fetch e t b (sleep (3 * second) (send (pageRequest t b) v)) = Some y"
            by (simp add: Get_NewCache)
          from IH [OF this] show ?thesis
            by (simp add: sleep_def send_def)
        next
          case not429: False
          with step False Response show ?thesis
            by (auto simp: Get_NewCache send_def Let_def split: option.splits)
        qed
      qed
    qed
  qed
  then show ?thesis
    unfolding keepsSlugs_def by blast
qed

lemma keepsSlugs_fetchPageContent: "keepsSlugs (fetchPageContent env token pageID w) w"
proof -
  have "\<forall>x w'. y = Return x w' \<longrightarrow> slugRegistered w' = slugRegistered w"
    if ret: "fetchPageContent env token pageID w = Some y" for y
  proof (rule fetchPageContent.raw_induct
      [where P = "\<lambda>e t b v y. \<forall>x w'. y = Return x w' \<longrightarrow> slugRegistered w' = slugRegistered v",
        OF _ ret], goal_cases)
    case (1 fetch e t b v y)
    note IH = 1(1) and step = 1(2)
    show ?case
    proof (cases "newRequestFails e ''GET'' (contentURL b)")
      case True
      with step show ?thesis
        by (auto simp: Get_NewCache)
    next
      case False
      show ?thesis
      proof (cases "roundTrip e (requests v) (contentRequest t b)")
        case DoFailed
        with step False show ?thesis
          by (auto simp: Get_NewCache send_def)
      next
        case (ReadAllFailed status)
        with step False show ?thesis
          by (auto simp: Get_NewCache send_def)
      next
        case (Response status body)
        show ?thesis
        proof (cases "status = 429")
          case True
          with step False Response
          have "fetch e t b (sleep (3 * second) (send (contentRequest t b) v)) = Some y"
            by (simp add: Get_NewCache)
          from IH [OF this] show ?thesis
            by (simp add: sleep_def send_def)
        next
          case not429: False
          with step False Response show ?thesis
            by (auto simp: Get_NewCache send_def Let_def split: option.splits)
        qed
      qed
    qed
  qed
  then show ?thesis
    unfolding keepsSlugs_def by blast
qed




lemma keepsSlugs_trans:
  "keepsSlugs m w1 \<Longrightarrow> slugRegistered w1 = slugRegistered w \<Longrightarrow> keepsSlugs m w"
  by (simp add: keepsSlugs_def)

lemma keepsSlugs_fetchTableContentFrom:
  "keepsSlugs (fetchTableContentFrom env token tableBlockID allRows nextCursor w) w"
proof -
  have "\<forall>x w'. y = Return x w' \<longrightarrow> slugRegistered w' = slugRegistered w"
    if ret: "fetchTableContentFrom env token tableBlockID allRows nextCursor w = Some y" for y
  proof (rule fetchTableContentFrom.raw_induct
      [where P = "\<lambda>e t b a c v y. \<forall>x w'. y = Return x w' \<longrightarrow> slugRegistered w' = slugRegistered v",
        OF _ ret], goal_cases)
    case (1 loop e t b a c v y)
    note IH = 1(1) and step = 1(2)
    show ?case
    proof (cases "fetchChildren e t b c v")
      case None
      with step show ?thesis by simp
    next
      case (Some out)
      show ?thesis
      proof (cases out)
        case (Panicked p w1)
        with step Some show ?thesis by auto
      next
        case (Fatal w1)
        with step Some show ?thesis by auto
      next
        case (Return r w1)
        with Some keepsSlugs_fetchChildren [of e t b c v]
        have w1: "slugRegistered w1 = slugRegistered v"
          by (simp add: keepsSlugs_def)
        show ?thesis
        proof (cases r)
          case (Inl err)
          with step Some Return w1 show ?thesis by auto
        next
          case (Inr response)
          show ?thesis
          proof (cases "appendTableRows (children_Results response) a")
            case (Inl p)
            with step Some Return Inr show ?thesis by auto
          next
            case rows: (Inr allRows')
            show ?thesis
            proof (cases "children_HasMore response")
              case True
              with step Some Return Inr rows
              have "loop e t b allRows' (children_NextCursor response) (sleep (1 * second) w1) = Some y"
                by simp
              from IH [OF this] w1 show ?thesis
                by (simp add: sleep_def)
            next
              case False
              with step Some Return Inr rows w1 show ?thesis
                by (auto simp: sleep_def)
            qed
          qed
        qed
      qed
    qed
  qed
  then show ?thesis
    unfolding keepsSlugs_def by blast
qed

lemma keepsSlugs_fetchTableContent: "keepsSlugs (fetchTableContent env token tableBlockID w) w"
  by (simp add: fetchTableContent_def keepsSlugs_fetchTableContentFrom)

lemma keepsSlugs_case_sum:
  "(\<And>a. r = Inl a \<Longrightarrow> keepsSlugs (f a) w) \<Longrightarrow> (\<And>b. r = Inr b \<Longrightarrow> keepsSlugs (g b) w)
   \<Longrightarrow> keepsSlugs (case r of Inl a \<Rightarrow> f a | Inr b \<Rightarrow> g b) w"
  by (cases r) simp_all

lemma keepsSlugs_paragraphRuns: "keepsSlugs (paragraphRuns env token runs plainText w) w"
proof (induction runs arbitrary: plainText w)
  case Nil
  show ?case by (simp add: keepsSlugs_ret)
next
  case (Cons t ts)
  show ?case
    by (auto intro!: keepsSlugs_andThen keepsSlugs_liftP keepsSlugs_fetchPage
        keepsSlugs_case_sum Cons.IH)
qed

lemma keepsSlugs_renderTableCellRuns: "keepsSlugs (renderTableCellRuns env cell acc w) w"
proof (induction cell arbitrary: acc w)
  case Nil
  show ?case by (simp add: keepsSlugs_ret)
next
  case (Cons t ts)
  show ?case
    by (auto intro!: keepsSlugs_andThen keepsSlugs_liftP keepsSlugs_fetchPage
        keepsSlugs_case_sum Cons.IH)
qed

lemma keepsSlugs_renderTableCell: "keepsSlugs (renderTableCell env cell w) w"
  unfolding renderTableCell_def
  by (intro keepsSlugs_andThen keepsSlugs_renderTableCellRuns) (simp add: keepsSlugs_ret)

lemma keepsSlugs_renderTableCells: "keepsSlugs (renderTableCells env i cells w) w"
proof (induction cells arbitrary: w)
  case Nil
  show ?case by (simp add: keepsSlugs_ret)
next
  case (Cons c cs)
  show ?case
    by (auto intro!: keepsSlugs_andThen keepsSlugs_renderTableCell keepsSlugs_ret Cons.IH)
qed

lemma keepsSlugs_renderTableRows: "keepsSlugs (renderTableRows env i rows w) w"
proof (induction rows arbitrary: i w)
  case Nil
  show ?case by (simp add: keepsSlugs_ret)
next
  case (Cons r rs)
  show ?case
    by (auto intro!: keepsSlugs_andThen keepsSlugs_renderTableCells keepsSlugs_ret Cons.IH)
qed

lemma keepsSlugs_renderTable: "keepsSlugs (renderTable env table rows w) w"
  unfolding renderTable_def
  by (auto intro!: keepsSlugs_andThen keepsSlugs_renderTableRows keepsSlugs_ret)


lemma keepsSlugs_mkdirAll: "slugRegistered (mkdirAll path w) = slugRegistered w"
  by (simp add: mkdirAll_def)

lemma keepsSlugs_blockSwitch: "keepsSlugs (blockSwitch env token block isChildren w) w"
  unfolding blockSwitch_def
  by (auto intro!: keepsSlugs_andThen keepsSlugs_liftP keepsSlugs_fetchPage keepsSlugs_ret
      keepsSlugs_case_sum keepsSlugs_paragraphRuns keepsSlugs_renderTable
      keepsSlugs_fetchTableContent
      simp: Let_def keepsSlugs_mkdirAll ensureDir_def split: prod.splits option.splits)

lemma keepsSlugs_blocksLoop:
  assumes "\<And>blocks w. keepsSlugs (children blocks w) w"
  shows "keepsSlugs (blocksLoop children env token blocks isChildren w) w"
proof (induction blocks arbitrary: w)
  case Nil
  show ?case by (simp add: keepsSlugs_ret)
next
  case (Cons b bs)
  show ?case
    by (auto intro!: keepsSlugs_andThen keepsSlugs_blockSwitch keepsSlugs_fetchPageContent
        keepsSlugs_ret keepsSlugs_case_sum assms Cons.IH)
qed

lemma keepsSlugs_blocksToMarkdown:
  "keepsSlugs (blocksToMarkdown depth env token blocks isChildren w) w"
proof (induction depth arbitrary: blocks isChildren w)
  case 0
  show ?case by (simp add: keepsSlugs_None)
next
  case (Suc depth)
  show ?case
    by (simp add: keepsSlugs_blocksLoop Suc.IH)
qed

lemma stringExists_set: "stringExists slice str \<longleftrightarrow> str \<in> set slice"
  by (induction slice) auto

lemma pageToMarkdown_returns:
  assumes "pageToMarkdown depth env token page position w = Some (Return (Inr markdown) w')"
  shows "\<exists>title slug keywords content.
           extractPageProperties page = Inr (title, slug, keywords)
           \<and> slugRegistered w' = slugRegistered w @
                 [if replaceAll (replaceAll slug ''('' []) '')'' [] \<in> set (slugRegistered w)
                  then replaceAll (replaceAll slug ''('' []) '')'' [] @ ''-dup''
                  else replaceAll (replaceAll slug ''('' []) '')'' []]
           \<and> markdown = pageTemplate title
                 (if replaceAll (replaceAll slug ''('' []) '')'' [] \<in> set (slugRegistered w)
                  then replaceAll (replaceAll slug ''('' []) '')'' [] @ ''-dup''
                  else replaceAll (replaceAll slug ''('' []) '')'' [])
                 (''['' @ keywords @ '']'') position content"
proof (cases "extractPageProperties page")
  case (Inl p)
  with assms show ?thesis
    by (simp add: pageToMarkdown_def liftP_def)
next
  case (Inr props)
  obtain title slug kw where props: "props = (title, slug, kw)"
    by (cases props) auto
  show ?thesis
  proof (cases "fetchPageContent env token (page_ID page) w")
    case None
    with assms Inr props show ?thesis
      by (simp add: pageToMarkdown_def liftP_def)
  next
    case (Some out)
    show ?thesis
    proof (cases out)
      case (Panicked p w1)
      with assms Inr props Some show ?thesis
        by (simp add: pageToMarkdown_def liftP_def)
    next
      case (Fatal w1)
      with assms Inr props Some show ?thesis
        by (simp add: pageToMarkdown_def liftP_def)
    next
      case (Return r w1)
      with Some keepsSlugs_fetchPageContent [of env token "page_ID page" w]
      have w1: "slugRegistered w1 = slugRegistered w"
        by (simp add: keepsSlugs_def)
      show ?thesis
      proof (cases r)
        case (Inl err)
        with assms Inr props Some Return show ?thesis
          by (simp add: pageToMarkdown_def liftP_def ret_def)
      next
        case blocks: (Inr blocks)
        show ?thesis
        proof (cases "blocksToMarkdown depth env token blocks False w1")
          case None
          with assms Inr props Some Return blocks show ?thesis
            by (simp add: pageToMarkdown_def liftP_def)
        next
          case content: (Some out2)
          show ?thesis
          proof (cases out2)
            case (Panicked p w2)
            with assms Inr props Some Return blocks content show ?thesis
              by (simp add: pageToMarkdown_def liftP_def)
          next
            case (Fatal w2)
            with assms Inr props Some Return blocks content show ?thesis
              by (simp add: pageToMarkdown_def liftP_def)
          next
            case rendered: (Return contentMarkdown w2)
            with content keepsSlugs_blocksToMarkdown [of depth env token blocks False w1] w1
            have w2: "slugRegistered w2 = slugRegistered w"
              by (simp add: keepsSlugs_def)
            from assms Inr props Some Return blocks content rendered
            show ?thesis
              by (auto simp: pageToMarkdown_def liftP_def ret_def Let_def stringExists_set w2)
          qed
        qed
      qed
    qed
  qed
qed


lemma pageToMarkdown_slug:
  assumes "pageToMarkdown depth env token page position w = Some (Return (Inr markdown) w')"
    and "computedSlug page = Some s"
  shows "slugRegistered w' = slugRegistered w @ [if s \<in> set (slugRegistered w) then s @ ''-dup'' else s]
         \<and> (\<exists>title keywordString content.
               markdown = pageTemplate title
                 (if s \<in> set (slugRegistered w) then s @ ''-dup'' else s)
                 keywordString position content)"
proof -
  from pageToMarkdown_returns [OF assms(1)] obtain title slug kw content where
    props: "extractPageProperties page = Inr (title, slug, kw)"
    and reg: "slugRegistered w' = slugRegistered w @
                 [if replaceAll (replaceAll slug ''('' []) '')'' [] \<in> set (slugRegistered w)
                  then replaceAll (replaceAll slug ''('' []) '')'' [] @ ''-dup''
                  else replaceAll (replaceAll slug ''('' []) '')'' []]"
    and md: "markdown = pageTemplate title
                 (if replaceAll (replaceAll slug ''('' []) '')'' [] \<in> set (slugRegistered w)
                  then replaceAll (replaceAll slug ''('' []) '')'' [] @ ''-dup''
                  else replaceAll (replaceAll slug ''('' []) '')'' [])
                 (''['' @ kw @ '']'') position content"
    by blast
  from props assms(2) have s: "s = replaceAll (replaceAll slug ''('' []) '')'' []"
    by (simp add: computedSlug_def)
  from reg md show ?thesis
    unfolding s by blast
qed

text \<open>
  C7 (as amended). When two pages that are converted one after the other in a run
  compute the same slug, and the slug is not in the registry when the first of them is
  converted, the first is registered and written with the slug as it is and the second
  with the slug followed by \<open>-dup\<close>. Between the two conversions the registry may
  have grown.
\<close>

theorem duplicate_slug_gets_suffix:
  assumes "pageToMarkdown depth1 env1 token1 page1 position1 w = Some (Return (Inr markdown1) w1)"
    and "pageToMarkdown depth2 env2 token2 page2 position2 w2 = Some (Return (Inr markdown2) w3)"
    and "computedSlug page1 = Some s" and "computedSlug page2 = Some s"
    and "s \<notin> set (slugRegistered w)"
    and "prefix (slugRegistered w1) (slugRegistered w2)"
  shows "slugRegistered w1 = slugRegistered w @ [s]
         \<and> slugRegistered w3 = slugRegistered w2 @ [s @ ''-dup'']
         \<and> (\<exists>title keywordString content.
               markdown1 = pageTemplate title s keywordString position1 content)
         \<and> (\<exists>title keywordString content.
               markdown2 = pageTemplate title (s @ ''-dup'') keywordString position2 content)"
proof -
  from pageToMarkdown_slug [OF assms(1) assms(3)] assms(5)
  have first: "slugRegistered w1 = slugRegistered w @ [s]"
    "\<exists>title keywordString content.
        markdown1 = pageTemplate title s keywordString position1 content"
    by simp_all
  from first(1) assms(6) have "s \<in> set (slugRegistered w2)"
    by (auto simp: prefix_def)
  with pageToMarkdown_slug [OF assms(2) assms(4)]
  have "slugRegistered w3 = slugRegistered w2 @ [s @ ''-dup'']"
    "\<exists>title keywordString content.
        markdown2 = pageTemplate title (s @ ''-dup'') keywordString position2 content"
    by simp_all
  with first show ?thesis by blast
qed

lemma fetchPageContent_emptyListing:
  "fetchPageContent (envWith emptyListing) token pageID w =
     Some (Return (Inr []) (send (contentRequest token pageID) w))"
  by (subst fetchPageContent.simps)
     (simp add: envWith_def emptyListing_def emptyBody_def Get_NewCache)

lemma extract_slugPage:
  "extractPageProperties (slugPage pageID slug) = Inr ([], replaceAll slug '' '' ''-'', [])"
  by (simp add: slugPage_def extractPageProperties_def bindP_def index_map_def assertArray_def
      firstString_def index0_def assertMap_def assertString_def)

lemma pageToMarkdown_slugPage:
  "pageToMarkdown (Suc 0) (envWith emptyListing) token (slugPage pageID slug) position w =
     Some (Return
       (Inr (pageTemplate []
          (if stringExists (slugRegistered w)
                (replaceAll (replaceAll (replaceAll slug '' '' ''-'') ''('' []) '')'' [])
           then replaceAll (replaceAll (replaceAll slug '' '' ''-'') ''('' []) '')'' [] @ ''-dup''
           else replaceAll (replaceAll (replaceAll slug '' '' ''-'') ''('' []) '')'' [])
          ''[]'' position []))
       (w\<lparr>requests := requests w @ [contentRequest token pageID],
          slugRegistered := slugRegistered w @
            [if stringExists (slugRegistered w)
                  (replaceAll (replaceAll (replaceAll slug '' '' ''-'') ''('' []) '')'' [])
             then replaceAll (replaceAll (replaceAll slug '' '' ''-'') ''('' []) '')'' [] @ ''-dup''
             else replaceAll (replaceAll (replaceAll slug '' '' ''-'') ''('' []) '')'' []]\<rparr>))"
proof -
  have "page_ID (slugPage pageID slug) = pageID"
    by (simp add: slugPage_def)
  then show ?thesis
    by (simp add: pageToMarkdown_def extract_slugPage liftP_def fetchPageContent_emptyListing
        ret_def send_def Let_def)
qed

theorem duplicate_slug_gets_suffix_witness:
  "pageToMarkdown (Suc 0) (envWith emptyListing) ''secret'' (slugPage ''p1'' ''intro'') 0 world0 =
     Some (Return (Inr (pageTemplate [] ''intro'' ''[]'' 0 []))
       (world0\<lparr>requests := [contentRequest ''secret'' ''p1''], slugRegistered := [''intro'']\<rparr>))
   \<and> pageToMarkdown (Suc 0) (envWith emptyListing) ''secret'' (slugPage ''p2'' ''intro'') 1
       (world0\<lparr>requests := [contentRequest ''secret'' ''p1''], slugRegistered := [''intro'']\<rparr>) =
     Some (Return (Inr (pageTemplate [] ''intro-dup'' ''[]'' 1 []))
       (world0\<lparr>requests := [contentRequest ''secret'' ''p1'', contentRequest ''secret'' ''p2''],
          slugRegistered := [''intro'', ''intro-dup'']\<rparr>))"
proof -
  let ?w1 = "world0\<lparr>requests := [contentRequest ''secret'' ''p1''], slugRegistered := [''intro'']\<rparr>"
  let ?w3 = "world0\<lparr>requests := [contentRequest ''secret'' ''p1'', contentRequest ''secret'' ''p2''],
          slugRegistered := [''intro'', ''intro-dup'']\<rparr>"
  have first: "pageToMarkdown (Suc 0) (envWith emptyListing) ''secret'' (slugPage ''p1'' ''intro'') 0 world0 =
     Some (Return (Inr (pageTemplate [] ''intro'' ''[]'' 0 [])) ?w1)"
    by (simp add: pageToMarkdown_slugPage world0_def)
  have second: "pageToMarkdown (Suc 0) (envWith emptyListing) ''secret'' (slugPage ''p2'' ''intro'') 1 ?w1 =
     Some (Return (Inr (pageTemplate [] ''intro-dup'' ''[]'' 1 [])) ?w3)"
    by (simp add: pageToMarkdown_slugPage world0_def)
  have slugs: "computedSlug (slugPage ''p1'' ''intro'') = Some ''intro''"
    "computedSlug (slugPage ''p2'' ''intro'') = Some ''intro''"
    by (simp_all add: computedSlug_def extract_slugPage)
  have fresh: "''intro'' \<notin> set (slugRegistered world0)"
    by (simp add: world0_def)
  have "prefix (slugRegistered ?w1) (slugRegistered ?w1)"
    by simp
  from duplicate_slug_gets_suffix [OF first second slugs fresh this] first second
  show ?thesis by simp
qed

text \<open>
  The claim as it was stated is about every run in which two pages compute the same
  slug. In a run of four pages whose slugs are \<open>a\<close>, \<open>a\<close>, \<open>a-dup\<close> and \<open>a-dup\<close>,
  the third page is the first to compute \<open>a-dup\<close>, which the second page has
  registered: the third and the fourth are both registered as \<open>a-dup-dup\<close>.
\<close>

theorem suffix_collision_counterexample:
  "andThen (pageToMarkdown (Suc 0) (envWith emptyListing) ''secret'' (slugPage ''p1'' ''a'') 0 world0)
     (\<lambda>markdown1 w.
   andThen (pageToMarkdown (Suc 0) (envWith emptyListing) ''secret'' (slugPage ''p2'' ''a'') 1 w)
     (\<lambda>markdown2 w.
   andThen (pageToMarkdown (Suc 0) (envWith emptyListing) ''secret'' (slugPage ''p3'' ''a-dup'') 2 w)
     (\<lambda>markdown3 w.
   andThen (pageToMarkdown (Suc 0) (envWith emptyListing) ''secret'' (slugPage ''p4'' ''a-dup'') 3 w)
     (\<lambda>markdown4 w. ret (markdown3, markdown4, slugRegistered w) world0))))
   = Some (Return
       (Inr (pageTemplate [] ''a-dup-dup'' ''[]'' 2 []),
        Inr (pageTemplate [] ''a-dup-dup'' ''[]'' 3 []),
        [''a'', ''a-dup'', ''a-dup-dup'', ''a-dup-dup''])
       world0)
   \<and> computedSlug (slugPage ''p3'' ''a-dup'') = Some ''a-dup''
   \<and> computedSlug (slugPage ''p4'' ''a-dup'') = Some ''a-dup''
   \<and> computedSlug (slugPage ''p1'' ''a'') \<noteq> Some ''a-dup''
   \<and> computedSlug (slugPage ''p2'' ''a'') \<noteq> Some ''a-dup''"
  by (simp add: pageToMarkdown_slugPage world0_def computedSlug_def extract_slugPage ret_def)

lemma andThen_Return_iff:
  "andThen m f = Some (Return y w') \<longleftrightarrow>
   (\<exists>x w1. m = Some (Return x w1) \<and> f x w1 = Some (Return y w'))"
  by (cases m) (auto simp: andThen_def split: Outcome.splits)

lemma liftP_Return_iff:
  "liftP r w = Some (Return x w') \<longleftrightarrow> r = Inr x \<and> w' = w"
  by (cases r) (auto simp: liftP_def)

lemma ret_Return_iff: "ret x w = Some (Return y w') \<longleftrightarrow> x = y \<and> w = w'"
  by (auto simp: ret_def)

lemma writeChildren_fetched:
  assumes "fetchPage env token child w = Some (Return (Inr childPage) wa)"
  shows "writeChildren write env token dir (child # rest) i hasChildren w =
         andThen (write dir childPage (int i) wa) (\<lambda>err wb.
           writeChildren write env token dir rest (Suc i) (hasChildren \<or> err = None) wb)"
proof -
  have "(case err of
           Some e \<Rightarrow> writeChildren write env token dir rest (Suc i) hasChildren wb
         | None \<Rightarrow> writeChildren write env token dir rest (Suc i) True wb)
        = writeChildren write env token dir rest (Suc i) (hasChildren \<or> err = None) wb"
    for err :: "goerror option" and wb
    by (cases err) simp_all
  with assms show ?thesis by simp
qed

text \<open>
  C6 (as amended). For every page that \<open>writeMarkdown\<close> has converted and whose
  call returns: without child pages its content is written to the file
  \<open><pageID>.md\<close> in the current directory, and that is the last thing done. With
  child pages, the directory \<open><pageID>\<close> is made in the current directory unless it
  exists and the loop over the children runs there: a child that cannot be fetched is
  passed over, a child that is fetched is written into that directory by
  \<open>writeMarkdown\<close> itself, and the flag of the loop is set when such a write returns
  no error. When the loop ends with its flag set, the last two things done are the
  writes of \<open>_category_.json\<close>, which holds the escaped title as label and the
  position, and of \<open>index.md\<close>, which holds the content of the page, both in that
  directory.
\<close>

theorem writeMarkdown_files:
  assumes "writeMarkdown (Suc depth) env outputDir token page position w = Some (Return err w')"
    and "pageToMarkdown (Suc depth) env token page position w = Some (Return (Inr markdown) w1)"
    and "extractPageRelations page = Inr (parentId, childPages)"
    and "extractPageProperties page = Inr (title, slug, keywordsOfPage)"
  shows "(childPages = [] \<longrightarrow>
           fsOps w' = fsOps w1 @ [WriteFile (outputDir @ ''/'' @ page_ID page @ ''.md'') markdown])
       \<and> (childPages \<noteq> [] \<longrightarrow>
           (\<exists>hasChildren w2.
              writeChildren
                (\<lambda>dir childPage cPageIndex. writeMarkdown depth env dir token childPage cPageIndex)
                env token (outputDir @ ''/'' @ page_ID page) childPages 0 False
                (ensureDir env (outputDir @ ''/'' @ page_ID page) w1)
                = Some (Return hasChildren w2)
              \<and> (hasChildren \<longrightarrow>
                   fsOps w' = fsOps w2 @
                     [WriteFile (outputDir @ ''/'' @ page_ID page @ ''/_category_.json'')
                        (categoryJson (escapeLabel title) position),
                      WriteFile (outputDir @ ''/'' @ page_ID page @ ''/index.md'') markdown])))
       \<and> writeChildren write env token dir [] i flag w0 = ret flag w0
       \<and> (fetchPage env token child w0 = Some (Return (Inl fetchError) wa) \<longrightarrow>
            writeChildren write env token dir (child # rest) i flag w0 =
              writeChildren write env token dir rest (Suc i) flag wa)
       \<and> (fetchPage env token child w0 = Some (Return (Inr childPage) wa) \<longrightarrow>
            writeChildren write env token dir (child # rest) i flag w0 =
              andThen (write dir childPage (int i) wa) (\<lambda>err wb.
                writeChildren write env token dir rest (Suc i) (flag \<or> err = None) wb))"
proof -
  have loop: "writeChildren write env token dir [] i flag w0 = ret flag w0
       \<and> (fetchPage env token child w0 = Some (Return (Inl fetchError) wa) \<longrightarrow>
            writeChildren write env token dir (child # rest) i flag w0 =
              writeChildren write env token dir rest (Suc i) flag wa)
       \<and> (fetchPage env token child w0 = Some (Return (Inr childPage) wa) \<longrightarrow>
            writeChildren write env token dir (child # rest) i flag w0 =
              andThen (write dir childPage (int i) wa) (\<lambda>err wb.
                writeChildren write env token dir rest (Suc i) (flag \<or> err = None) wb))"
    using writeChildren_fetched [of env token child w0 childPage wa "write" dir rest i flag]
    by simp
  have files: "(childPages = [] \<longrightarrow>
           fsOps w' = fsOps w1 @ [WriteFile (outputDir @ ''/'' @ page_ID page @ ''.md'') markdown])
       \<and> (childPages \<noteq> [] \<longrightarrow>
           (\<exists>hasChildren w2.
              writeChildren
                (\<lambda>dir childPage cPageIndex. writeMarkdown depth env dir token childPage cPageIndex)
                env token (outputDir @ ''/'' @ page_ID page) childPages 0 False
                (ensureDir env (outputDir @ ''/'' @ page_ID page) w1)
                = Some (Return hasChildren w2)
              \<and> (hasChildren \<longrightarrow>
                   fsOps w' = fsOps w2 @
                     [WriteFile (outputDir @ ''/'' @ page_ID page @ ''/_category_.json'')
                        (categoryJson (escapeLabel title) position),
                      WriteFile (outputDir @ ''/'' @ page_ID page @ ''/index.md'') markdown])))"
  proof (cases "childPages = []")
  case True
  with assms show ?thesis
    by (auto simp: andThen_Return_iff liftP_Return_iff ret_Return_iff writeFile_def Let_def
        split: prod.splits)
next
  case False
  let ?dir = "outputDir @ ''/'' @ page_ID page"
  from assms False have "\<exists>b w2.
      writeChildren
        (\<lambda>dir childPage cPageIndex. writeMarkdown depth env dir token childPage cPageIndex)
        env token ?dir childPages 0 False (ensureDir env ?dir w1) = Some (Return b w2)
      \<and> (b \<longrightarrow> w' = (snd (writeFile env (?dir @ ''/_category_.json'')
                               (categoryJson (escapeLabel title) position) w2))
                       \<lparr>fsOps := fsOps (snd (writeFile env (?dir @ ''/_category_.json'')
                               (categoryJson (escapeLabel title) position) w2))
                               @ [WriteFile (?dir @ ''/index.md'') markdown]\<rparr>)"
    by (auto simp: andThen_Return_iff liftP_Return_iff ret_Return_iff Let_def writeFile_def
        split_beta)
  then obtain b w2 where
    children: "writeChildren
        (\<lambda>dir childPage cPageIndex. writeMarkdown depth env dir token childPage cPageIndex)
        env token ?dir childPages 0 False (ensureDir env ?dir w1) = Some (Return b w2)"
    and final: "b \<longrightarrow> w' = (snd (writeFile env (?dir @ ''/_category_.json'')
                               (categoryJson (escapeLabel title) position) w2))
                       \<lparr>fsOps := fsOps (snd (writeFile env (?dir @ ''/_category_.json'')
                               (categoryJson (escapeLabel title) position) w2))
                               @ [WriteFile (?dir @ ''/index.md'') markdown]\<rparr>"
    by blast
  have "b \<longrightarrow> fsOps w' = fsOps w2 @
                     [WriteFile (?dir @ ''/_category_.json'')
                        (categoryJson (escapeLabel title) position),
                      WriteFile (?dir @ ''/index.md'') markdown]"
    using final by (simp add: writeFile_def)
  with children False show ?thesis
    by simp
  qed
  from files loop show ?thesis
    by blast
qed

lemma content_childReachable:
  "fetchPageContent (envWith childReachable) token pageID w =
     Some (Return (Inr []) (send (contentRequest token pageID) w))"
  by (subst fetchPageContent.simps)
     (simp add: envWith_def childReachable_def emptyBody_def Get_NewCache contentRequest_def
        contentURL_def pageURL_def)

lemma content_childUnreachable:
  "fetchPageContent (envWith childUnreachable) token pageID w =
     Some (Return (Inr []) (send (contentRequest token pageID) w))"
  by (subst fetchPageContent.simps)
     (simp add: envWith_def childUnreachable_def emptyBody_def Get_NewCache contentRequest_def
        contentURL_def pageURL_def)

lemma page_childReachable:
  "fetchPage (envWith childReachable) token ''c1'' w =
     Some (Return (Inr \<lparr>page_ID = ''c1'', Properties = []\<rparr>) (send (pageRequest token ''c1'') w))"
  by (subst fetchPage.simps)
     (simp add: envWith_def childReachable_def Get_NewCache pageRequest_def)

lemma page_childUnreachable:
  "fetchPage (envWith childUnreachable) token ''c1'' w =
     Some (Return (Inl DoError) (send (pageRequest token ''c1'') w))"
  by (subst fetchPage.simps)
     (simp add: envWith_def childUnreachable_def Get_NewCache pageRequest_def)

lemma extract_parentPage:
  "extractPageProperties parentPage = Inr (''Guide'', [], [])"
  "extractPageRelations parentPage = Inr ([], [''c1''])"
  "page_ID parentPage = ''p1''"
  by (simp_all add: parentPage_def extractPageProperties_def extractPageRelations_def bindP_def
      index_map_def assertArray_def firstString_def index0_def assertMap_def assertString_def)

lemma extract_bare:
  "extractPageProperties \<lparr>page_ID = pageID, Properties = []\<rparr> = Inr ([], [], [])"
  "extractPageRelations \<lparr>page_ID = pageID, Properties = []\<rparr> = Inr ([], [])"
  by (simp_all add: extractPageProperties_def extractPageRelations_def bindP_def index_map_def)

lemma parent_markdown:
  "pageToMarkdown (Suc (Suc 0)) (envWith childReachable) ''secret'' parentPage 0 world0 =
     Some (Return (Inr (pageTemplate ''Guide'' [] ''[]'' 0 []))
       (world0\<lparr>requests := [contentRequest ''secret'' ''p1''], slugRegistered := [[]]\<rparr>))"
  by (simp add: pageToMarkdown_def extract_parentPage liftP_def content_childReachable ret_def
      send_def world0_def)

lemma envWith_fields:
  "statNotExist (envWith server) ops path"
  "\<not> writeFileFails (envWith server) ops path"
  by (simp_all add: envWith_def)

lemma escapeLabel_Guide: "escapeLabel ''Guide'' = ''Guide''"
  by (simp add: escapeLabel_def)

lemma child_written:
  "writeChildren
     (\<lambda>dir childPage cPageIndex.
         writeMarkdown (Suc 0) (envWith childReachable) dir ''secret'' childPage cPageIndex)
     (envWith childReachable) ''secret'' (''out'' @ ''/'' @ page_ID parentPage) [''c1''] 0 False
     (ensureDir (envWith childReachable) (''out'' @ ''/'' @ page_ID parentPage)
        (world0\<lparr>requests := [contentRequest ''secret'' ''p1''], slugRegistered := [[]]\<rparr>))
   = Some (Return True
       \<lparr>clock = 0,
        requests = [contentRequest ''secret'' ''p1'', pageRequest ''secret'' ''c1'',
                    contentRequest ''secret'' ''c1''],
        sleeps = [],
        fsOps = [MkdirAll ''out/p1'',
                 WriteFile ''out/p1/c1.md'' (pageTemplate [] ''-dup'' ''[]'' 0 [])],
        slugRegistered = [[], ''-dup'']\<rparr>)"
  by (simp add: extract_parentPage page_childReachable content_childReachable extract_bare
      pageToMarkdown_def liftP_def ret_def send_def world0_def writeFile_def ensureDir_def
      mkdirAll_def envWith_fields Let_def escapeLabel_def)

theorem writeMarkdown_files_witness:
  "writeMarkdown (Suc (Suc 0)) (envWith childReachable) ''out'' ''secret'' parentPage 0 world0 =
     Some (Return None
       \<lparr>clock = 0,
        requests = [contentRequest ''secret'' ''p1'', pageRequest ''secret'' ''c1'',
                    contentRequest ''secret'' ''c1''],
        sleeps = [],
        fsOps = [MkdirAll ''out/p1'',
                 WriteFile ''out/p1/c1.md'' (pageTemplate [] ''-dup'' ''[]'' 0 []),
                 WriteFile ''out/p1/_category_.json'' (categoryJson ''Guide'' 0),
                 WriteFile ''out/p1/index.md'' (pageTemplate ''Guide'' [] ''[]'' 0 [])],
        slugRegistered = [[], ''-dup'']\<rparr>)"
proof -
  obtain err w' where
    run: "writeMarkdown (Suc (Suc 0)) (envWith childReachable) ''out'' ''secret'' parentPage 0 world0
      = Some (Return err w')"
    and err: "err = None"
    and rest: "clock w' = 0" "sleeps w' = []" "slugRegistered w' = [[], ''-dup'']"
      "requests w' = [contentRequest ''secret'' ''p1'', pageRequest ''secret'' ''c1'',
                    contentRequest ''secret'' ''c1'']"
    by (simp add: parent_markdown [simplified] extract_parentPage page_childReachable
        content_childReachable extract_bare pageToMarkdown_def liftP_def ret_def send_def
        world0_def writeFile_def ensureDir_def mkdirAll_def envWith_fields Let_def escapeLabel_def)
  from writeMarkdown_files [OF run parent_markdown extract_parentPage(2) extract_parentPage(1)]
  obtain hasChildren w2 where
    loop: "writeChildren
        (\<lambda>dir childPage cPageIndex.
            writeMarkdown (Suc 0) (envWith childReachable) dir ''secret'' childPage cPageIndex)
        (envWith childReachable) ''secret'' (''out'' @ ''/'' @ page_ID parentPage) [''c1''] 0 False
        (ensureDir (envWith childReachable) (''out'' @ ''/'' @ page_ID parentPage)
           (world0\<lparr>requests := [contentRequest ''secret'' ''p1''], slugRegistered := [[]]\<rparr>))
        = Some (Return hasChildren w2)"
    and files: "hasChildren \<longrightarrow>
        fsOps w' = fsOps w2 @
          [WriteFile (''out'' @ ''/'' @ page_ID parentPage @ ''/_category_.json'')
             (categoryJson (escapeLabel ''Guide'') 0),
           WriteFile (''out'' @ ''/'' @ page_ID parentPage @ ''/index.md'')
             (pageTemplate ''Guide'' [] ''[]'' 0 [])]"
    by blast
  from loop have "hasChildren"
    and "fsOps w2 = [MkdirAll ''out/p1'',
                 WriteFile ''out/p1/c1.md'' (pageTemplate [] ''-dup'' ''[]'' 0 [])]"
    unfolding child_written by auto
  with files
  have "fsOps w' = [MkdirAll ''out/p1'',
                 WriteFile ''out/p1/c1.md'' (pageTemplate [] ''-dup'' ''[]'' 0 []),
                 WriteFile ''out/p1/_category_.json'' (categoryJson ''Guide'' 0),
                 WriteFile ''out/p1/index.md'' (pageTemplate ''Guide'' [] ''[]'' 0 [])]"
    by (simp add: escapeLabel_Guide extract_parentPage)
  with run err rest show ?thesis
    by (cases w') simp
qed

text \<open>
  The claim as it was stated gives every page with a child page an \<open>index.md\<close> and
  a category file. When the one child of a page cannot be fetched, the content of the
  page is written to \<open><pageID>.md\<close> inside the directory \<open><pageID>\<close>, and neither
  \<open>index.md\<close> nor the category file is written.
\<close>

theorem child_not_fetched_counterexample:
  "writeMarkdown (Suc (Suc 0)) (envWith childUnreachable) ''out'' ''secret'' parentPage 0 world0 =
     Some (Return None
       \<lparr>clock = 0,
        requests = [contentRequest ''secret'' ''p1'', pageRequest ''secret'' ''c1''],
        sleeps = [],
        fsOps = [MkdirAll ''out/p1'',
                 WriteFile ''out/p1/p1.md'' (pageTemplate ''Guide'' [] ''[]'' 0 [])],
        slugRegistered = [[]]\<rparr>)
   \<and> extractPageRelations parentPage = Inr ([], [''c1''])"
  by (simp add: extract_parentPage page_childUnreachable content_childUnreachable
      pageToMarkdown_def liftP_def ret_def send_def world0_def writeFile_def ensureDir_def
      mkdirAll_def envWith_fields Let_def escapeLabel_def)

end
